theory Spec2Isabelle
  imports Complex_Main "HOL-Library.Word"
begin

section \<open>Strings, bytes and UTF-8\<close>

text \<open>
  A Go \<^verbatim>\<open>string\<close> is a sequence of bytes; it is modelled as a \<^typ>\<open>string\<close>, one
  \<^typ>\<open>char\<close> per byte.  A \<^verbatim>\<open>rune\<close> is a code point, modelled as a natural number.
  \<^verbatim>\<open>for _, r := range input\<close> decodes one UTF-8 sequence per iteration; a byte that
  does not start a well-formed sequence is delivered as U+FFFD and the loop advances by
  one byte.
\<close>

type_synonym rune = nat

definition RuneError :: rune where
  "RuneError = 0xFFFD"

definition byte :: "char \<Rightarrow> nat" where
  "byte c = of_char c"

definition inrange :: "nat \<Rightarrow> nat \<Rightarrow> char \<Rightarrow> bool" where
  "inrange lo hi c \<longleftrightarrow> lo \<le> byte c \<and> byte c \<le> hi"

text \<open>Size of the sequence announced by a leading byte, and the range its second byte
  must lie in (the \<^verbatim>\<open>first\<close> and \<^verbatim>\<open>acceptRanges\<close> tables of \<^verbatim>\<open>unicode/utf8\<close>).\<close>

definition seq_size :: "nat \<Rightarrow> nat" where
  "seq_size b0 = (if b0 < 0xE0 then 2 else if b0 < 0xF0 then 3 else 4)"

definition accept_lo :: "nat \<Rightarrow> nat" where
  "accept_lo b0 = (if b0 = 0xE0 then 0xA0 else if b0 = 0xF0 then 0x90 else 0x80)"

definition accept_hi :: "nat \<Rightarrow> nat" where
  "accept_hi b0 = (if b0 = 0xED then 0x9F else if b0 = 0xF4 then 0x8F else 0xBF)"

definition cont :: "char \<Rightarrow> bool" where
  "cont c \<longleftrightarrow> inrange 0x80 0xBF c"

text \<open>The bytes after the leading byte \<open>b0\<close> of a multi-byte sequence.  When fewer
  bytes follow than the leading byte announces, or one of them is out of range, the
  leading byte alone is consumed as U+FFFD.\<close>

definition decode_multi :: "nat \<Rightarrow> string \<Rightarrow> rune \<times> nat" where
  "decode_multi b0 s0 =
    (if length s0 + 1 < seq_size b0 then (RuneError, 1)
     else case take (seq_size b0 - 1) s0 of
       [c1] \<Rightarrow>
         if inrange (accept_lo b0) (accept_hi b0) c1
         then ((b0 mod 32) * 64 + byte c1 mod 64, 2)
         else (RuneError, 1)
     | [c1, c2] \<Rightarrow>
         if inrange (accept_lo b0) (accept_hi b0) c1 \<and> cont c2
         then ((b0 mod 16) * 4096 + (byte c1 mod 64) * 64 + byte c2 mod 64, 3)
         else (RuneError, 1)
     | [c1, c2, c3] \<Rightarrow>
         if inrange (accept_lo b0) (accept_hi b0) c1 \<and> cont c2 \<and> cont c3
         then ((b0 mod 8) * 262144 + (byte c1 mod 64) * 4096 + (byte c2 mod 64) * 64
                 + byte c3 mod 64, 4)
         else (RuneError, 1)
     | _ \<Rightarrow> (RuneError, 1))"

text \<open>\<^verbatim>\<open>DecodeRune\<close> returns the rune and the number of bytes it occupies.\<close>

definition DecodeRune :: "string \<Rightarrow> rune \<times> nat" where
  "DecodeRune s =
    (case s of
       [] \<Rightarrow> (RuneError, 0)
     | c0 # s0 \<Rightarrow>
         if byte c0 < 0x80 then (byte c0, 1)
         else if byte c0 < 0xC2 \<or> 0xF4 < byte c0 then (RuneError, 1)
         else decode_multi (byte c0) s0)"

text \<open>\<^verbatim>\<open>strings.Builder.WriteRune\<close> appends the UTF-8 encoding of the rune; a surrogate
  or a value beyond U+10FFFF is written as U+FFFD.\<close>

definition valid_rune :: "rune \<Rightarrow> bool" where
  "valid_rune r \<longleftrightarrow> r \<le> 0x10FFFF \<and> \<not> (0xD800 \<le> r \<and> r \<le> 0xDFFF)"

definition EncodeRune :: "rune \<Rightarrow> string" where
  "EncodeRune r0 =
    (let r = (if valid_rune r0 then r0 else RuneError) in
     if r < 0x80 then [char_of r]
     else if r < 0x800 then [char_of (0xC0 + r div 64), char_of (0x80 + r mod 64)]
     else if r < 0x10000 then
       [char_of (0xE0 + r div 4096), char_of (0x80 + (r div 64) mod 64),
        char_of (0x80 + r mod 64)]
     else
       [char_of (0xF0 + r div 262144), char_of (0x80 + (r div 4096) mod 64),
        char_of (0x80 + (r div 64) mod 64), char_of (0x80 + r mod 64)])"

section \<open>Fraction normalisation\<close>

text \<open>The table \<^verbatim>\<open>fractions\<close>, keyed by code point.\<close>

definition fractions :: "rune \<rightharpoonup> string" where
  "fractions = map_of
    [(0xBC, ''1/4''), (0xBD, ''1/2''), (0xBE, ''3/4''),
     (0x2153, ''1/3''), (0x2154, ''2/3''),
     (0x2155, ''1/5''), (0x2156, ''2/5''), (0x2157, ''3/5''), (0x2158, ''4/5''),
     (0x2159, ''1/6''), (0x215A, ''5/6''),
     (0x215B, ''1/8''), (0x215C, ''3/8''), (0x215D, ''5/8''), (0x215E, ''7/8'')]"

text \<open>One iteration of the loop body: what is appended to the builder for a rune.\<close>

definition write_rune :: "rune \<Rightarrow> string" where
  "write_rune r = (case fractions r of Some replacement \<Rightarrow> replacement | None \<Rightarrow> EncodeRune r)"

lemma decode_multi_width_pos: "0 < snd (decode_multi b0 s0)"
  by (simp add: decode_multi_def split: list.split)

lemma DecodeRune_width_pos: "s \<noteq> [] \<Longrightarrow> 0 < snd (DecodeRune s)"
  by (simp add: DecodeRune_def decode_multi_width_pos split: list.split)

function ConvertFractions_loop :: "string \<Rightarrow> string \<Rightarrow> string" where
  "ConvertFractions_loop input output =
    (if input = [] then output
     else let (r, w) = DecodeRune input
          in ConvertFractions_loop (drop w input) (output @ write_rune r))"
  by pat_completeness auto
termination
proof (relation "measure (\<lambda>(inp, acc). length inp)")
  show "wf (measure (\<lambda>(inp :: string, acc :: string). length inp))" by simp
next
  fix inp acc :: string and x :: "rune \<times> nat" and r w
  assume ne: "inp \<noteq> []" and x: "x = DecodeRune inp" and rw: "(r, w) = x"
  from ne have "0 < snd (DecodeRune inp)" by (rule DecodeRune_width_pos)
  with x rw have "0 < w" by (metis snd_conv)
  with ne show "((drop w inp, acc @ write_rune r), (inp, acc))
      \<in> measure (\<lambda>(inp, acc). length inp)"
    by simp
qed

declare ConvertFractions_loop.simps [simp del]

definition ConvertFractions :: "string \<Rightarrow> string" where
  "ConvertFractions input = ConvertFractions_loop input []"


section \<open>Trimming white space\<close>

text \<open>\<^verbatim>\<open>unicode.IsSpace\<close>: the Latin-1 cases are listed in the function itself, the others
  are the remaining code points of the \<^verbatim>\<open>White_Space\<close> table.\<close>

definition IsSpace :: "rune \<Rightarrow> bool" where
  "IsSpace r \<longleftrightarrow>
     (if r \<le> 0xFF then r \<in> {0x09, 0x0A, 0x0B, 0x0C, 0x0D, 0x20, 0x85, 0xA0}
      else r = 0x1680 \<or> (0x2000 \<le> r \<and> r \<le> 0x200A) \<or> r = 0x2028 \<or> r = 0x2029
           \<or> r = 0x202F \<or> r = 0x205F \<or> r = 0x3000)"

text \<open>\<^verbatim>\<open>utf8.RuneStart\<close>: the byte is not a continuation byte.\<close>

definition RuneStart :: "char \<Rightarrow> bool" where
  "RuneStart c \<longleftrightarrow> \<not> (0x80 \<le> byte c \<and> byte c < 0xC0)"

text \<open>\<^verbatim>\<open>utf8.DecodeLastRuneInString\<close>.  The backward scan inspects the bytes at distance
  2, 3 and 4 from the end and stops at the first that starts a rune; \<open>scan_back\<close> returns
  the distance of the chosen start from the end, given the reversed string without its
  last byte.  When the scan runs off the front of the string the start is its first
  byte; when none of the three bytes starts a rune the start lies 5 bytes from the end.\<close>

fun scan_back :: "string \<Rightarrow> nat \<Rightarrow> nat" where
  "scan_back [] k = k - 1"
| "scan_back (c # cs) k = (if 4 < k then k else if RuneStart c then k else scan_back cs (k + 1))"

definition DecodeLastRune :: "string \<Rightarrow> rune \<times> nat" where
  "DecodeLastRune s =
    (if s = [] then (RuneError, 0)
     else if byte (last s) < 0x80 then (byte (last s), 1)
     else
       let k = scan_back (tl (rev s)) 2;
           (r, size) = DecodeRune (drop (length s - k) s)
       in if size \<noteq> k then (RuneError, 1) else (r, size))"

lemma scan_back_pos: "2 \<le> k \<Longrightarrow> 0 < scan_back cs k"
  by (induction cs arbitrary: k) auto

lemma DecodeLastRune_width_pos: "s \<noteq> [] \<Longrightarrow> 0 < snd (DecodeLastRune s)"
  using scan_back_pos[of 2 "tl (rev s)"]
  by (auto simp: DecodeLastRune_def Let_def split: prod.split)

text \<open>\<^verbatim>\<open>strings.TrimLeftFunc\<close> and \<^verbatim>\<open>strings.TrimRightFunc\<close> with \<^verbatim>\<open>unicode.IsSpace\<close>:
  runes are removed from the front (decoded forwards) and from the back (decoded
  backwards) as long as they are white space.  \<^verbatim>\<open>strings.TrimSpace\<close> is their
  composition; its fast path for ASCII computes the same result.\<close>

function TrimLeftSpace :: "string \<Rightarrow> string" where
  "TrimLeftSpace s =
    (if s = [] then s
     else let (r, w) = DecodeRune s
          in if IsSpace r then TrimLeftSpace (drop w s) else s)"
  by pat_completeness auto
termination
proof (relation "measure length")
  show "wf (measure (length :: string \<Rightarrow> nat))" by simp
next
  fix s :: string and x :: "rune \<times> nat" and r w
  assume ne: "s \<noteq> []" and x: "x = DecodeRune s" and rw: "(r, w) = x"
  from ne have "0 < snd (DecodeRune s)" by (rule DecodeRune_width_pos)
  with x rw have "0 < w" by (metis snd_conv)
  with ne show "(drop w s, s) \<in> measure length" by simp
qed

function TrimRightSpace :: "string \<Rightarrow> string" where
  "TrimRightSpace s =
    (if s = [] then s
     else let (r, w) = DecodeLastRune s
          in if IsSpace r then TrimRightSpace (take (length s - w) s) else s)"
  by pat_completeness auto
termination
proof (relation "measure length")
  show "wf (measure (length :: string \<Rightarrow> nat))" by simp
next
  fix s :: string and x :: "rune \<times> nat" and r w
  assume ne: "s \<noteq> []" and x: "x = DecodeLastRune s" and rw: "(r, w) = x"
  from ne have "0 < snd (DecodeLastRune s)" by (rule DecodeLastRune_width_pos)
  with x rw have "0 < w" by (metis snd_conv)
  with ne show "(take (length s - w) s, s) \<in> measure length" by simp
qed

declare TrimLeftSpace.simps [simp del] TrimRightSpace.simps [simp del]

definition TrimSpace :: "string \<Rightarrow> string" where
  "TrimSpace s = TrimRightSpace (TrimLeftSpace s)"

section \<open>Slices\<close>

text \<open>A Go slice is either \<^verbatim>\<open>nil\<close> or present (possibly empty); the zero value of a
  slice-typed struct field is \<^verbatim>\<open>nil\<close>.\<close>

datatype 'a slice = NilSlice | Slice "'a list"

definition make_slice :: "'a slice" where
  "make_slice = Slice []"

fun elems :: "'a slice \<Rightarrow> 'a list" where
  "elems NilSlice = []"
| "elems (Slice xs) = xs"

definition len :: "'a slice \<Rightarrow> nat" where
  "len sl = length (elems sl)"

definition append :: "'a slice \<Rightarrow> 'a \<Rightarrow> 'a slice" where
  "append sl x = Slice (elems sl @ [x])"

section \<open>The document tree and the query layer\<close>

text \<open>An \<^verbatim>\<open>html.Node\<close> is an element with a tag, attributes in source order and children,
  a text node, or another node (comment, doctype) that has neither text nor children.
  A \<^verbatim>\<open>goquery.Selection\<close> is the list of its nodes in document order.\<close>

datatype node =
    ElementNode string "(string \<times> string) list" "node list"
  | TextNode string
  | OtherNode

type_synonym Selection = "node list"

fun is_element :: "node \<Rightarrow> bool" where
  "is_element (ElementNode t as cs) = True"
| "is_element n = False"

fun child_nodes :: "node \<Rightarrow> node list" where
  "child_nodes (ElementNode t as cs) = cs"
| "child_nodes n = []"

fun has_tag :: "string \<Rightarrow> node \<Rightarrow> bool" where
  "has_tag tg (ElementNode t as cs) = (t = tg)"
| "has_tag tg n = False"

text \<open>The first attribute with the given key, as \<^verbatim>\<open>Selection.Attr\<close> reads it.\<close>

fun attr_of :: "string \<Rightarrow> node \<Rightarrow> string option" where
  "attr_of key (ElementNode t as cs) = map_of as key"
| "attr_of key n = None"

text \<open>The attribute selector \<^verbatim>\<open>[key="val"]\<close>: some attribute has this key and value.\<close>

fun attr_equals :: "string \<Rightarrow> string \<Rightarrow> node \<Rightarrow> bool" where
  "attr_equals key val (ElementNode t as cs) = ((key, val) \<in> set as)"
| "attr_equals key val n = False"

text \<open>The class selector \<^verbatim>\<open>.val\<close>: some \<^verbatim>\<open>class\<close> attribute contains \<open>val\<close> as one of its
  fields, cut at each single white-space byte.\<close>

fun class_fields :: "string \<Rightarrow> string \<Rightarrow> string list" where
  "class_fields cur [] = [cur]"
| "class_fields cur (c # cs) =
    (if byte c \<in> {0x20, 0x09, 0x0A, 0x0C, 0x0D}
     then cur # class_fields [] cs else class_fields (cur @ [c]) cs)"

fun has_class :: "string \<Rightarrow> node \<Rightarrow> bool" where
  "has_class val (ElementNode t as cs) =
     (\<exists>(k, v) \<in> set as. k = ''class'' \<and> val \<in> set (class_fields [] v))"
| "has_class val n = False"

text \<open>All nodes of a subtree, the root first, in document order.\<close>

fun subtree :: "node \<Rightarrow> node list" where
  "subtree (ElementNode t as cs) = ElementNode t as cs # concat (map subtree cs)"
| "subtree n = [n]"

text \<open>\<^verbatim>\<open>Selection.Find\<close> on a single node: the matching nodes among its descendants.\<close>

definition Find :: "node \<Rightarrow> (node \<Rightarrow> bool) \<Rightarrow> Selection" where
  "Find s m = concat (map (\<lambda>c. filter m (subtree c)) (filter is_element (child_nodes s)))"

text \<open>\<^verbatim>\<open>Selection.Text\<close>: the text nodes of every selected node and its descendants.\<close>

fun node_text :: "node \<Rightarrow> string" where
  "node_text (TextNode d) = d"
| "node_text (ElementNode t as cs) = concat (map node_text cs)"
| "node_text OtherNode = []"

definition Text :: "Selection \<Rightarrow> string" where
  "Text sel = concat (map node_text sel)"

text \<open>\<^verbatim>\<open>Selection.AttrOr\<close> reads the first node of the selection.\<close>

definition AttrOr :: "Selection \<Rightarrow> string \<Rightarrow> string \<Rightarrow> string" where
  "AttrOr sel attr defaultValue =
    (case sel of
       [] \<Rightarrow> defaultValue
     | n # ns \<Rightarrow> (case attr_of attr n of Some v \<Rightarrow> v | None \<Rightarrow> defaultValue))"

text \<open>\<^verbatim>\<open>Selection.Children\<close>: the element children of every selected node.\<close>

definition Children :: "Selection \<Rightarrow> Selection" where
  "Children sel = concat (map (\<lambda>n. filter is_element (child_nodes n)) sel)"

text \<open>\<^verbatim>\<open>Selection.Each\<close> runs the callback on every node in order; the callback's only
  effect is on the slice it captures, which is threaded through.\<close>

definition Each :: "Selection \<Rightarrow> (node \<Rightarrow> 'a slice \<Rightarrow> 'a slice) \<Rightarrow> 'a slice \<Rightarrow> 'a slice" where
  "Each sel f acc = foldl (\<lambda>a n. f n a) acc sel"

subsection \<open>The property extractor\<close>

text \<open>A \<^verbatim>\<open>RecipeNode\<close> wraps the selection of one recipe container, a single node.
  \<^verbatim>\<open>ItemProp\<close> queries \<^verbatim>\<open>elemName[itemprop="propName"]\<close>; an empty \<open>elemName\<close> leaves the
  tag unconstrained.\<close>

definition itemprop_selector :: "string \<Rightarrow> string \<Rightarrow> node \<Rightarrow> bool" where
  "itemprop_selector elemName propName n \<longleftrightarrow>
     is_element n \<and> (elemName = [] \<or> has_tag elemName n) \<and> attr_equals ''itemprop'' propName n"

definition ItemProp :: "node \<Rightarrow> string \<Rightarrow> string \<Rightarrow> Selection" where
  "ItemProp s elemName propName = Find s (itemprop_selector elemName propName)"

definition ItemPropAttrOr :: "node \<Rightarrow> string \<Rightarrow> string \<Rightarrow> string \<Rightarrow> string \<Rightarrow> string" where
  "ItemPropAttrOr s elemName propName attr defaultValue =
     AttrOr (ItemProp s elemName propName) attr defaultValue"

definition ItemPropElemText :: "node \<Rightarrow> string \<Rightarrow> string" where
  "ItemPropElemText s propName = Text (ItemProp s [] propName)"

definition ItemPropContentOr :: "node \<Rightarrow> string \<Rightarrow> string \<Rightarrow> string" where
  "ItemPropContentOr s propName defaultValue =
     ItemPropAttrOr s ''meta'' propName ''content'' defaultValue"

definition ItemPropContentList :: "node \<Rightarrow> string \<Rightarrow> string slice" where
  "ItemPropContentList s propName =
     Each (ItemProp s ''meta'' propName)
       (\<lambda>meta contents.
          let content = AttrOr [meta] ''content'' [] in
          if content \<noteq> [] then append contents content else contents)
       make_slice"

definition ItemPropChildrenText :: "node \<Rightarrow> string \<Rightarrow> string slice" where
  "ItemPropChildrenText s propName =
     Each (Children (ItemProp s [] propName))
       (\<lambda>par stringList.
          let partext = ConvertFractions (TrimSpace (Text [par])) in
          if partext \<noteq> [] then append stringList partext else stringList)
       make_slice"

definition ExtractRecipeCourses :: "node \<Rightarrow> string slice" where
  "ExtractRecipeCourses s =
     Each (ItemProp s [] ''recipeCourse'')
       (\<lambda>elem courses.
          if has_tag ''span'' elem then
            (let course = Text [elem] in
             if course \<noteq> [] then append courses course else courses)
          else if has_tag ''meta'' elem then
            (let course = AttrOr [elem] ''content'' [] in
             if course \<noteq> [] then append courses course else courses)
          else courses)
       make_slice"

definition ExtractRecipePhotos :: "node \<Rightarrow> string slice" where
  "ExtractRecipePhotos s =
     Each (Find s (\<lambda>n. has_tag ''img'' n \<and> has_class ''recipe-photos'' n))
       (\<lambda>img photos.
          let img_src = AttrOr [img] ''src'' [] in
          if img_src \<noteq> [] then append photos img_src else photos)
       make_slice"


section \<open>Results of fallible operations\<close>

text \<open>An error value returned by the code or by the library, or a run-time panic.\<close>

datatype error =
    ErrIncorrectFormat
  | ErrSyntax
  | ErrRange
  | ErrInvalidDuration
  | ErrMissingUnit
  | ErrUnknownUnit

datatype 'a result = Panics | Fails error | Returns 'a

definition bind :: "'a result \<Rightarrow> ('a \<Rightarrow> 'b result) \<Rightarrow> 'b result" where
  "bind m f = (case m of Panics \<Rightarrow> Panics | Fails e \<Rightarrow> Fails e | Returns x \<Rightarrow> f x)"

text \<open>Indexing a slice panics when the index is out of range.\<close>

definition index :: "'a list \<Rightarrow> nat \<Rightarrow> 'a result" where
  "index xs i = (if i < length xs then Returns (xs ! i) else Panics)"

section \<open>Decimal digits\<close>

definition is_digit :: "char \<Rightarrow> bool" where
  "is_digit c \<longleftrightarrow> 0x30 \<le> byte c \<and> byte c \<le> 0x39"

definition digit_val :: "char \<Rightarrow> nat" where
  "digit_val c = byte c - 0x30"

definition digits_val :: "string \<Rightarrow> nat" where
  "digits_val ds = foldl (\<lambda>a c. a * 10 + digit_val c) 0 ds"

text \<open>\<^verbatim>\<open>strconv.Atoi\<close> on a 64-bit platform: an optional sign and decimal digits, the
  value within the range of \<^verbatim>\<open>int\<close>; anything else is an error.\<close>

definition Atoi :: "string \<Rightarrow> int option" where
  "Atoi s =
    (let neg = (s \<noteq> [] \<and> hd s = CHR ''-'');
         ds = (if s \<noteq> [] \<and> (hd s = CHR ''-'' \<or> hd s = CHR ''+'') then tl s else s);
         n = (if neg then - int (digits_val ds) else int (digits_val ds))
     in if ds \<noteq> [] \<and> list_all is_digit ds \<and> - (2 ^ 63) \<le> n \<and> n < 2 ^ 63
        then Some n else None)"

section \<open>The duration grammar\<close>

text \<open>The constructs of the regular expression.  Matching is the backtracking search
  whose first success is the match that \<^verbatim>\<open>regexp\<close> reports: \<open>rmatch\<close> lists, in order of
  preference, every way the expression can consume a prefix of the input, each with the
  rest of the input and the capture groups set on the way.  \<^verbatim>\<open>\d+\<close> and \<^verbatim>\<open>?\<close> are greedy;
  \<^verbatim>\<open>\d\<close> is an ASCII digit; \<^verbatim>\<open>.\<close> is any one character but a line feed.\<close>

datatype regex =
    Lit char
  | Digits
  | AnyChar
  | Seq regex regex
  | Opt regex
  | Group nat regex

type_synonym captures = "(nat \<times> string) list"

primrec rmatch :: "regex \<Rightarrow> string \<Rightarrow> captures \<Rightarrow> (string \<times> captures) list" where
  "rmatch (Lit c) = (\<lambda>s caps.
     case s of [] \<Rightarrow> [] | x # t \<Rightarrow> if x = c then [(t, caps)] else [])"
| "rmatch Digits = (\<lambda>s caps.
     map (\<lambda>k. (drop k s, caps)) (rev [1..<Suc (length (takeWhile is_digit s))]))"
| "rmatch AnyChar = (\<lambda>s caps.
     if s = [] \<or> fst (DecodeRune s) = 0x0A then [] else [(drop (snd (DecodeRune s)) s, caps)])"
| "rmatch (Seq a b) = (\<lambda>s caps.
     concat (map (\<lambda>(s', caps'). rmatch b s' caps') (rmatch a s caps)))"
| "rmatch (Opt a) = (\<lambda>s caps. rmatch a s caps @ [(s, caps)])"
| "rmatch (Group i a) = (\<lambda>s caps.
     map (\<lambda>(s', caps'). (s', (i, take (length s - length s') s) # caps')) (rmatch a s caps))"

text \<open>\<^verbatim>\<open>^P(?:(\d+)Y)?(?:(\d+)M)?(?:(\d+)D)?T(?:(\d+)H)?(?:(\d+)M)?(?:(\d+(?:.\d+)?)S)?$\<close>
  without its two anchors.\<close>

definition seconds_regex :: regex where
  "seconds_regex = Group 6 (Seq Digits (Opt (Seq AnyChar Digits)))"

definition iso_regex :: regex where
  "iso_regex =
     Seq (Lit (CHR ''P''))
    (Seq (Opt (Seq (Group 1 Digits) (Lit (CHR ''Y''))))
    (Seq (Opt (Seq (Group 2 Digits) (Lit (CHR ''M''))))
    (Seq (Opt (Seq (Group 3 Digits) (Lit (CHR ''D''))))
    (Seq (Lit (CHR ''T''))
    (Seq (Opt (Seq (Group 4 Digits) (Lit (CHR ''H''))))
    (Seq (Opt (Seq (Group 5 Digits) (Lit (CHR ''M''))))
         (Opt (Seq seconds_regex (Lit (CHR ''S''))))))))))"

definition group_text :: "captures \<Rightarrow> nat \<Rightarrow> string" where
  "group_text caps i = (case map_of caps i of Some g \<Rightarrow> g | None \<Rightarrow> [])"

text \<open>\<^verbatim>\<open>FindStringSubmatch\<close> for an expression anchored at both ends: the first way to
  consume the whole input.  The result holds the match and the text of the six groups,
  empty for a group that took no part; \<open>None\<close> is the \<^verbatim>\<open>nil\<close> result.\<close>

definition FindStringSubmatch :: "string \<Rightarrow> string list option" where
  "FindStringSubmatch s =
    (case filter (\<lambda>(rest, caps). rest = []) (rmatch iso_regex s []) of
       [] \<Rightarrow> None
     | (rest, caps) # others \<Rightarrow> Some (s # map (group_text caps) [1, 2, 3, 4, 5, 6]))"

section \<open>Floating-point numbers\<close>

text \<open>The parser only produces non-negative finite values, which are modelled by the
  rational number they denote.  An operation rounds its exact result to the nearest
  representable number, ties to the even significand; \<open>prec\<close> is the number of
  significand bits and \<open>emin\<close> the exponent of the smallest subnormal.\<close>

fun bitlen :: "nat \<Rightarrow> nat" where
  "bitlen n = (if n = 0 then 0 else Suc (bitlen (n div 2)))"

fun declen :: "nat \<Rightarrow> nat" where
  "declen n = (if n = 0 then 0 else Suc (declen (n div 10)))"

declare bitlen.simps [simp del] declen.simps [simp del]

definition pow2 :: "int \<Rightarrow> rat" where
  "pow2 e = (if 0 \<le> e then 2 ^ nat e else 1 / 2 ^ nat (- e))"

definition pow10 :: "int \<Rightarrow> rat" where
  "pow10 e = (if 0 \<le> e then 10 ^ nat e else 1 / 10 ^ nat (- e))"

text \<open>\<open>\<lfloor>log\<^sub>2 x\<rfloor>\<close> and \<open>\<lfloor>log\<^sub>1\<^sub>0 x\<rfloor>\<close> for positive \<open>x\<close>.\<close>

definition floor_log2 :: "rat \<Rightarrow> int" where
  "floor_log2 x =
    (if 1 \<le> x then int (bitlen (nat \<lfloor>x\<rfloor>)) - 1 else - int (bitlen (nat (\<lceil>1 / x\<rceil> - 1))))"

definition floor_log10 :: "rat \<Rightarrow> int" where
  "floor_log10 x =
    (if 1 \<le> x then int (declen (nat \<lfloor>x\<rfloor>)) - 1 else - int (declen (nat (\<lceil>1 / x\<rceil> - 1))))"

definition round_half_even :: "rat \<Rightarrow> int" where
  "round_half_even q =
    (let f = \<lfloor>q\<rfloor>; d = q - of_int f
     in if d < 1 / 2 then f else if 1 / 2 < d then f + 1 else if even f then f else f + 1)"

definition float_round :: "nat \<Rightarrow> int \<Rightarrow> rat \<Rightarrow> rat" where
  "float_round prec emin x =
    (if x \<le> 0 then 0
     else let e = max (floor_log2 x - int prec + 1) emin
          in of_int (round_half_even (x / pow2 e)) * pow2 e)"

text \<open>Rounding to \<^verbatim>\<open>float32\<close>; \<open>None\<close> is a result beyond the largest finite value,
  that is \<open>+Inf\<close>.\<close>

definition round32 :: "rat \<Rightarrow> rat option" where
  "round32 x = (let y = float_round 24 (- 149) x in if y < 2 ^ 128 then Some y else None)"

text \<open>Rounding to \<^verbatim>\<open>float64\<close>.  The values that occur are sums of at most four
  \<^verbatim>\<open>float32\<close> values times at most 86400, far below the overflow threshold.\<close>

definition round64 :: "rat \<Rightarrow> rat" where
  "round64 x = float_round 53 (- 1074) x"

definition mul64 :: "rat \<Rightarrow> rat \<Rightarrow> rat" where
  "mul64 x y = round64 (x * y)"

definition add64 :: "rat \<Rightarrow> rat \<Rightarrow> rat" where
  "add64 x y = round64 (x + y)"

definition div64 :: "rat \<Rightarrow> rat \<Rightarrow> rat" where
  "div64 x y = round64 (x / y)"

text \<open>\<^verbatim>\<open>strconv.ParseFloat(s, 32)\<close> on the strings the expression can capture: decimal
  digits, or decimal digits, one character and decimal digits.  The character may be the
  decimal point, the exponent marker or a digit separator; any other is a syntax error.
  The value is rounded to \<^verbatim>\<open>float32\<close>, and a value that rounds to infinity is a range
  error.\<close>

definition to_float32 :: "rat \<Rightarrow> error + rat" where
  "to_float32 x = (case round32 x of None \<Rightarrow> Inl ErrRange | Some y \<Rightarrow> Inr y)"

definition ParseFloat32 :: "string \<Rightarrow> error + rat" where
  "ParseFloat32 s =
    (let ds1 = takeWhile is_digit s; rest = dropWhile is_digit s in
     if ds1 = [] then Inl ErrSyntax
     else case rest of
       [] \<Rightarrow> to_float32 (of_nat (digits_val ds1))
     | c # ds2 \<Rightarrow>
         if ds2 = [] \<or> \<not> list_all is_digit ds2 then Inl ErrSyntax
         else if c = CHR ''.'' then
           to_float32 (of_nat (digits_val ds1) + of_nat (digits_val ds2) / 10 ^ length ds2)
         else if c = CHR ''e'' \<or> c = CHR ''E'' then
           to_float32 (of_nat (digits_val ds1) * 10 ^ digits_val ds2)
         else if c = CHR ''_'' then
           to_float32 (of_nat (digits_val (ds1 @ ds2)))
         else Inl ErrSyntax)"


section \<open>Formatting a float\<close>

text \<open>Decimal digits of a natural number, as \<^verbatim>\<open>%d\<close> prints them.\<close>

definition digit_char :: "nat \<Rightarrow> char" where
  "digit_char d = char_of (0x30 + d)"

fun digits_of :: "nat \<Rightarrow> string" where
  "digits_of n = (if n < 10 then [digit_char n] else digits_of (n div 10) @ [digit_char (n mod 10)])"

declare digits_of.simps [simp del]

text \<open>The shortest decimal that identifies a \<^verbatim>\<open>float32\<close> value \<open>y > 0\<close>: with \<open>n\<close>
  significant digits the candidates are \<open>y\<close> cut after \<open>n\<close> digits and the next decimal
  above it; a candidate is acceptable when it rounds back to \<open>y\<close>.  Of two acceptable
  candidates the nearer is taken, the even one when they are equally near.  A decimal is
  a pair \<open>(m, e)\<close> that stands for \<open>m \<times> 10\<^sup>e\<close>.\<close>

definition dec_value :: "nat \<times> int \<Rightarrow> rat" where
  "dec_value d = of_nat (fst d) * pow10 (snd d)"

definition nearer :: "rat \<Rightarrow> nat \<Rightarrow> int \<Rightarrow> nat \<times> int" where
  "nearer y m e =
    (if y - dec_value (m, e) < dec_value (m + 1, e) - y then (m, e)
     else if dec_value (m + 1, e) - y < y - dec_value (m, e) then (m + 1, e)
     else if even m then (m, e) else (m + 1, e))"

definition shortest_pick :: "rat \<Rightarrow> nat \<Rightarrow> int \<Rightarrow> (nat \<times> int) option" where
  "shortest_pick y m e =
    (if round32 (dec_value (m, e)) = Some y then
       (if round32 (dec_value (m + 1, e)) = Some y then Some (nearer y m e) else Some (m, e))
     else if round32 (dec_value (m + 1, e)) = Some y then Some (m + 1, e)
     else None)"

definition shortest_try :: "nat \<Rightarrow> rat \<Rightarrow> (nat \<times> int) option" where
  "shortest_try n y =
     shortest_pick y (nat \<lfloor>y / pow10 (floor_log10 y - int n + 1)\<rfloor>) (floor_log10 y - int n + 1)"

text \<open>Nine significant digits always identify a \<^verbatim>\<open>float32\<close>.\<close>

fun shortest_search :: "nat \<Rightarrow> nat \<Rightarrow> rat \<Rightarrow> nat \<times> int" where
  "shortest_search 0 n y = (nat \<lfloor>y / pow10 (floor_log10 y - int n + 1)\<rfloor>, floor_log10 y - int n + 1)"
| "shortest_search (Suc k) n y =
    (case shortest_try n y of Some d \<Rightarrow> d | None \<Rightarrow> shortest_search k (Suc n) y)"

definition shortest32 :: "rat \<Rightarrow> nat \<times> int" where
  "shortest32 y = shortest_search 9 1 y"

text \<open>The format \<^verbatim>\<open>'f'\<close> with precision \<open>-1\<close>: the digits before the decimal point, then
  the point and the digits after it when there are any, without trailing zeros.\<close>

definition strip_zeros :: "string \<Rightarrow> string" where
  "strip_zeros ds = rev (dropWhile (\<lambda>c. c = CHR ''0'') (rev ds))"

definition fmt_decimal :: "nat \<times> int \<Rightarrow> string" where
  "fmt_decimal d =
    (let m = fst d; e = snd d in
     if 0 \<le> e then digits_of (m * 10 ^ nat e)
     else
       let k = nat (- e);
           ip = m div 10 ^ k;
           fp = m mod 10 ^ k;
           fds = digits_of fp
       in digits_of ip @
          (if fp = 0 then []
           else CHR ''.'' # strip_zeros (replicate (k - length fds) (CHR ''0'') @ fds)))"

text \<open>\<^verbatim>\<open>strconv.FormatFloat(x, 'f', -1, 32)\<close> for a non-negative \<open>x\<close>: it is first rounded
  to \<^verbatim>\<open>float32\<close>.\<close>

definition FormatFloat32 :: "rat \<Rightarrow> string" where
  "FormatFloat32 x =
    (case round32 x of
       None \<Rightarrow> ''+Inf''
     | Some y \<Rightarrow> if y = 0 then ''0'' else fmt_decimal (shortest32 y))"

section \<open>Parsing a duration\<close>

text \<open>A \<^verbatim>\<open>time.Duration\<close> is a signed 64-bit count of nanoseconds.\<close>

type_synonym Duration = "64 word"

text \<open>\<^verbatim>\<open>leadingInt\<close>: the leading digits as a number, failing beyond \<open>2\<^sup>6\<^sup>3\<close>.\<close>

fun leadingInt :: "nat \<Rightarrow> string \<Rightarrow> (nat \<times> string) option" where
  "leadingInt x [] = Some (x, [])"
| "leadingInt x (c # cs) =
    (if \<not> is_digit c then Some (x, c # cs)
     else if x > 2 ^ 63 div 10 then None
     else if x * 10 + digit_val c > 2 ^ 63 then None
     else leadingInt (x * 10 + digit_val c) cs)"

text \<open>\<^verbatim>\<open>leadingFraction\<close>: the leading digits as a number and its scale; digits past the
  capacity of the number are skipped.\<close>

fun leadingFraction :: "nat \<Rightarrow> rat \<Rightarrow> bool \<Rightarrow> string \<Rightarrow> nat \<times> rat \<times> string" where
  "leadingFraction x scale overflow [] = (x, scale, [])"
| "leadingFraction x scale overflow (c # cs) =
    (if \<not> is_digit c then (x, scale, c # cs)
     else if overflow then leadingFraction x scale overflow cs
     else if x > (2 ^ 63 - 1) div 10 then leadingFraction x scale True cs
     else if x * 10 + digit_val c > 2 ^ 63 then leadingFraction x scale True cs
     else leadingFraction (x * 10 + digit_val c) (mul64 scale 10) overflow cs)"

text \<open>\<^verbatim>\<open>unitMap\<close>, in nanoseconds; the micro sign and the Greek mu are both accepted.\<close>

definition unitMap :: "string \<rightharpoonup> nat" where
  "unitMap = map_of
    [(''ns'', 1), (''us'', 1000), ([CHR 0xC2, CHR 0xB5, CHR ''s''], 1000),
     ([CHR 0xCE, CHR 0xBC, CHR ''s''], 1000), (''ms'', 1000000), (''s'', 1000000000),
     (''m'', 60000000000), (''h'', 3600000000000)]"

definition starts_number :: "char \<Rightarrow> bool" where
  "starts_number c \<longleftrightarrow> c = CHR ''.'' \<or> is_digit c"

text \<open>One pass of the loop of \<^verbatim>\<open>time.ParseDuration\<close>: a number, a unit, and the value in
  nanoseconds with the rest of the input.\<close>

definition parse_segment :: "string \<Rightarrow> error + (nat \<times> string)" where
  "parse_segment s =
    (if s = [] \<or> \<not> starts_number (hd s) then Inl ErrInvalidDuration
     else case leadingInt 0 s of
       None \<Rightarrow> Inl ErrInvalidDuration
     | Some (v, s1) \<Rightarrow>
        (let pre = (length s \<noteq> length s1);
             has_point = (s1 \<noteq> [] \<and> hd s1 = CHR ''.'');
             (f, scale, s2) = (if has_point then leadingFraction 0 1 False (tl s1) else (0, 1, s1));
             post = (has_point \<and> length (tl s1) \<noteq> length s2);
             u = takeWhile (\<lambda>c. \<not> starts_number c) s2;
             s3 = dropWhile (\<lambda>c. \<not> starts_number c) s2
         in if \<not> pre \<and> \<not> post then Inl ErrInvalidDuration
            else if u = [] then Inl ErrMissingUnit
            else case unitMap u of
              None \<Rightarrow> Inl ErrUnknownUnit
            | Some unit \<Rightarrow>
                if v > 2 ^ 63 div unit then Inl ErrInvalidDuration
                else
                  let v1 = v * unit;
                      v2 = (if f > 0
                            then v1 + nat \<lfloor>mul64 (round64 (of_nat f)) (div64 (of_nat unit) scale)\<rfloor>
                            else v1)
                  in if v2 > 2 ^ 63 then Inl ErrInvalidDuration else Inr (v2, s3)))"


lemma leadingInt_length: "leadingInt x s = Some (v, r) \<Longrightarrow> length r \<le> length s"
  by (induction x s rule: leadingInt.induct) (auto split: if_splits)

lemma leadingFraction_length:
  "leadingFraction x scale overflow s = (f, scale', r) \<Longrightarrow> length r \<le> length s"
  by (induction x scale overflow s rule: leadingFraction.induct) (auto split: if_splits)

lemma parse_segment_shorter:
  assumes "parse_segment s = Inr (v, rest)"
  shows "length rest < length s"
proof -
  from assms obtain v0 s1 where li: "leadingInt 0 s = Some (v0, s1)"
    by (auto simp: parse_segment_def split: if_splits option.splits)
  obtain f scale s2 where lf:
    "(if s1 \<noteq> [] \<and> hd s1 = CHR ''.'' then leadingFraction 0 1 False (tl s1) else (0, 1, s1))
       = (f, scale, s2)"
    by (metis prod_cases3)
  have l1: "length s1 \<le> length s" using li by (rule leadingInt_length)
  have l2: "length s2 \<le> length s1"
  proof (cases "s1 \<noteq> [] \<and> hd s1 = CHR ''.''")
    case True
    with lf have "leadingFraction 0 1 False (tl s1) = (f, scale, s2)" by simp
    then have "length s2 \<le> length (tl s1)" by (rule leadingFraction_length)
    then show ?thesis by simp
  next
    case False
    with lf show ?thesis by auto
  qed
  from assms li lf have u: "takeWhile (\<lambda>c. \<not> starts_number c) s2 \<noteq> []"
    and r: "rest = dropWhile (\<lambda>c. \<not> starts_number c) s2"
    by (auto simp: parse_segment_def Let_def split: if_splits option.splits)
  have "length (takeWhile (\<lambda>c. \<not> starts_number c) s2) + length rest = length s2"
    unfolding r by (metis length_append takeWhile_dropWhile_id)
  with u have "length rest < length s2" by (cases "takeWhile (\<lambda>c. \<not> starts_number c) s2") auto
  with l1 l2 show ?thesis by linarith
qed

text \<open>The loop of \<^verbatim>\<open>time.ParseDuration\<close> accumulates the segments in an unsigned 64-bit
  counter.\<close>

function ParseDuration_loop :: "string \<Rightarrow> nat \<Rightarrow> error + nat" where
  "ParseDuration_loop s d =
    (if s = [] then Inr d
     else case parse_segment s of
       Inl e \<Rightarrow> Inl e
     | Inr (v, rest) \<Rightarrow>
         if (d + v) mod 2 ^ 64 > 2 ^ 63 then Inl ErrInvalidDuration
         else ParseDuration_loop rest ((d + v) mod 2 ^ 64))"
  by pat_completeness auto
termination
  by (relation "measure (\<lambda>(s, d). length s)") (auto dest: parse_segment_shorter)

declare ParseDuration_loop.simps [simp del]

definition ParseDuration :: "string \<Rightarrow> error + Duration" where
  "ParseDuration s =
    (let neg = (s \<noteq> [] \<and> hd s = CHR ''-'');
         s1 = (if s \<noteq> [] \<and> (hd s = CHR ''-'' \<or> hd s = CHR ''+'') then tl s else s)
     in if s1 = ''0'' then Inr 0
        else if s1 = [] then Inl ErrInvalidDuration
        else case ParseDuration_loop s1 0 of
          Inl e \<Rightarrow> Inl e
        | Inr d \<Rightarrow>
            if neg then Inr (- word_of_nat d)
            else if d > 2 ^ 63 - 1 then Inl ErrInvalidDuration
            else Inr (word_of_nat d))"

section \<open>The ISO-8601 duration parser\<close>

text \<open>One of the four blocks of \<^verbatim>\<open>ParseISODuration\<close>: when group \<open>i\<close> is not empty it is
  parsed, multiplied by the given factors one after the other and added to the seconds;
  a parse error ends the function with that error.\<close>

definition component :: "string list \<Rightarrow> nat \<Rightarrow> rat list \<Rightarrow> rat \<Rightarrow> rat result" where
  "component matches i factors seconds =
    bind (index matches i) (\<lambda>g.
      if g \<noteq> [] then
        (case ParseFloat32 g of
           Inl err \<Rightarrow> Fails err
         | Inr f \<Rightarrow> Returns (add64 seconds (foldl mul64 f factors)))
      else Returns seconds)"

definition ParseISODuration :: "string \<Rightarrow> Duration result" where
  "ParseISODuration isoDuration =
    (case FindStringSubmatch isoDuration of
       None \<Rightarrow> Fails ErrIncorrectFormat
     | Some matches \<Rightarrow>
         bind (component matches 3 [24, 60, 60] 0) (\<lambda>seconds.
         bind (component matches 4 [60, 60] seconds) (\<lambda>seconds.
         bind (component matches 5 [60] seconds) (\<lambda>seconds.
         bind (component matches 6 [] seconds) (\<lambda>seconds.
           case ParseDuration (FormatFloat32 seconds @ ''s'') of
             Inl err \<Rightarrow> Fails err
           | Inr d \<Rightarrow> Returns d)))))"

section \<open>The recipe model\<close>

record RecipeNutrition =
  Serving :: string
  Calories :: string
  TotalFat :: string
  SaturatedFat :: string
  Sodium :: string
  TotalCarbohydrate :: string
  DietaryFiber :: string
  Sugars :: string
  Protein :: string

record RecipeMetadata =
  UUID :: string
  Favorited :: bool
  Rating :: int
  Source :: string
  CategoryList :: "string slice"
  CourseList :: "string slice"
  CollectionList :: "string slice"
  Yield :: string
  CookTime :: Duration
  PrepTime :: Duration

record Recipe =
  Title :: string
  Nutrition :: RecipeNutrition
  Metadata :: RecipeMetadata
  PhotoPaths :: "string slice"
  IngredientLines :: "string slice"
  InstructionLines :: "string slice"
  NotesLines :: "string slice"

text \<open>The zero values \<^verbatim>\<open>RecipeNutrition{}\<close>, \<^verbatim>\<open>RecipeMetadata{}\<close> and \<^verbatim>\<open>Recipe{}\<close>.\<close>

definition zero_RecipeNutrition :: RecipeNutrition where
  "zero_RecipeNutrition =
    \<lparr>Serving = [], Calories = [], TotalFat = [], SaturatedFat = [], Sodium = [],
     TotalCarbohydrate = [], DietaryFiber = [], Sugars = [], Protein = []\<rparr>"

definition zero_RecipeMetadata :: RecipeMetadata where
  "zero_RecipeMetadata =
    \<lparr>UUID = [], Favorited = False, Rating = 0, Source = [], CategoryList = NilSlice,
     CourseList = NilSlice, CollectionList = NilSlice, Yield = [], CookTime = 0, PrepTime = 0\<rparr>"

definition zero_Recipe :: Recipe where
  "zero_Recipe =
    \<lparr>Title = [], Nutrition = zero_RecipeNutrition, Metadata = zero_RecipeMetadata,
     PhotoPaths = NilSlice, IngredientLines = NilSlice, InstructionLines = NilSlice,
     NotesLines = NilSlice\<rparr>"

text \<open>\<^verbatim>\<open>d, err := ParseISODuration(...); if err == nil { field = d }\<close>: an error leaves
  the record as it is, a panic ends the caller.\<close>

definition assign_if_ok :: "'a result \<Rightarrow> ('a \<Rightarrow> 'm \<Rightarrow> 'm) \<Rightarrow> 'm \<Rightarrow> 'm result" where
  "assign_if_ok r upd m =
    (case r of Panics \<Rightarrow> Panics | Fails err \<Rightarrow> Returns m | Returns d \<Rightarrow> Returns (upd d m))"

definition ExtractRecipeMetadata :: "node \<Rightarrow> RecipeMetadata result" where
  "ExtractRecipeMetadata s =
    (let metadata = zero_RecipeMetadata;
         metadata = metadata\<lparr>UUID := ItemPropContentOr s ''recipeId'' []\<rparr>;
         metadata = metadata\<lparr>Favorited :=
                      (ItemPropContentOr s ''recipeIsFavourite'' ''False'' = ''True'')\<rparr>;
         metadata = (case Atoi (ItemPropContentOr s ''recipeRating'' ''0'') of
                       Some rating \<Rightarrow> metadata\<lparr>Rating := rating\<rparr>
                     | None \<Rightarrow> metadata);
         metadata = metadata\<lparr>Source := ItemPropElemText s ''recipeSource''\<rparr>;
         metadata = metadata\<lparr>CategoryList := ItemPropContentList s ''recipeCategory''\<rparr>;
         metadata = metadata\<lparr>CollectionList := ItemPropContentList s ''recipeCollection''\<rparr>;
         metadata = metadata\<lparr>CourseList := ExtractRecipeCourses s\<rparr>;
         metadata = metadata\<lparr>Yield := ItemPropElemText s ''recipeYield''\<rparr>
     in bind (assign_if_ok
                (ParseISODuration (TrimSpace (ItemPropContentOr s ''prepTime'' ''PT50S'')))
                (\<lambda>prepDuration m. m\<lparr>PrepTime := prepDuration\<rparr>) metadata)
          (\<lambda>metadata.
             assign_if_ok
               (ParseISODuration (ItemPropContentOr s ''cookTime'' ''PT0S''))
               (\<lambda>cookDuration m. m\<lparr>CookTime := cookDuration\<rparr>) metadata))"

definition ExtractRecipeNutrition :: "node \<Rightarrow> RecipeNutrition" where
  "ExtractRecipeNutrition s =
    \<lparr>Serving = ItemPropContentOr s ''recipeNutServingSize'' [],
     Calories = ItemPropContentOr s ''recipeNutCalories'' [],
     TotalFat = ItemPropContentOr s ''recipeNutTotalFat'' [],
     SaturatedFat = ItemPropContentOr s ''recipeNutSaturatedFat'' [],
     Sodium = ItemPropContentOr s ''recipeNutSodium'' [],
     TotalCarbohydrate = ItemPropContentOr s ''recipeNutTotalCarbohydrate'' [],
     DietaryFiber = ItemPropContentOr s ''recipeNutDietaryFiber'' [],
     Sugars = ItemPropContentOr s ''recipeNutSugars'' [],
     Protein = ItemPropContentOr s ''recipeNutProtein'' []\<rparr>"

definition ExtractRecipe :: "node \<Rightarrow> Recipe result" where
  "ExtractRecipe s =
    (let recipe = zero_Recipe;
         recipe = recipe\<lparr>Title := ItemPropElemText s ''name''\<rparr>
     in bind (ExtractRecipeMetadata s) (\<lambda>metadata.
          let recipe = recipe\<lparr>Metadata := metadata\<rparr>;
              recipe = recipe\<lparr>PhotoPaths := ExtractRecipePhotos s\<rparr>;
              recipe = recipe\<lparr>IngredientLines := ItemPropChildrenText s ''recipeIngredients''\<rparr>;
              recipe = recipe\<lparr>InstructionLines := ItemPropChildrenText s ''recipeDirections''\<rparr>;
              recipe = recipe\<lparr>NotesLines := ItemPropChildrenText s ''recipeNotes''\<rparr>
          in Returns recipe))"

section \<open>Rendering\<close>

text \<open>\<^verbatim>\<open>fmtFrac\<close>: the last \<open>prec\<close> decimal digits of \<open>v\<close> as a fraction without trailing
  zeros, written in front of \<open>buf\<close>, and \<open>v\<close> without them.\<close>

fun fmtFrac :: "nat \<Rightarrow> nat \<Rightarrow> bool \<Rightarrow> string \<Rightarrow> string \<times> nat" where
  "fmtFrac 0 v print buf = ((if print then CHR ''.'' # buf else buf), v)"
| "fmtFrac (Suc i) v print buf =
    fmtFrac i (v div 10) (print \<or> v mod 10 \<noteq> 0)
      (if print \<or> v mod 10 \<noteq> 0 then digit_char (v mod 10) # buf else buf)"

definition fmtInt :: "nat \<Rightarrow> string \<Rightarrow> string" where
  "fmtInt v buf = digits_of v @ buf"

text \<open>\<^verbatim>\<open>Duration.String\<close>.  The buffer is filled from its end.\<close>

definition format_small :: "nat \<Rightarrow> string" where
  "format_small u =
    (if u = 0 then ''0s''
     else if u < 1000 then
       (let (buf, v) = fmtFrac 0 u False ''ns'' in fmtInt v buf)
     else if u < 1000000 then
       (let (buf, v) = fmtFrac 3 u False [CHR 0xC2, CHR 0xB5, CHR ''s''] in fmtInt v buf)
     else
       (let (buf, v) = fmtFrac 6 u False ''ms'' in fmtInt v buf))"

definition format_large :: "nat \<Rightarrow> string" where
  "format_large u =
    (let (buf, secs) = fmtFrac 9 u False ''s'';
         buf = fmtInt (secs mod 60) buf;
         mins = secs div 60
     in if mins > 0 then
          (let buf = fmtInt (mins mod 60) (CHR ''m'' # buf);
               hours = mins div 60
           in if hours > 0 then fmtInt hours (CHR ''h'' # buf) else buf)
        else buf)"

definition Duration_String :: "Duration \<Rightarrow> string" where
  "Duration_String d =
    (let neg = (sint d < 0);
         u = (if neg then nat (- sint d) else nat (sint d));
         buf = (if u < 1000000000 then format_small u else format_large u)
     in if neg then CHR ''-'' # buf else buf)"

text \<open>\<^verbatim>\<open>%d\<close> of an \<^verbatim>\<open>int\<close> and \<^verbatim>\<open>strings.Join\<close>.\<close>

definition fmt_int :: "int \<Rightarrow> string" where
  "fmt_int i = (if i < 0 then CHR ''-'' # digits_of (nat (- i)) else digits_of (nat i))"

fun Join :: "string list \<Rightarrow> string \<Rightarrow> string" where
  "Join [] sep = []"
| "Join [x] sep = x"
| "Join (x # y # ys) sep = x @ sep @ Join (y # ys) sep"

text \<open>\<^verbatim>\<open>FormatAsRecipeMD\<close>: the builder is threaded through the statements in order.\<close>

definition newline :: string where
  "newline = [CHR 0x0A]"

definition FormatAsRecipeMD :: "Recipe \<Rightarrow> string" where
  "FormatAsRecipeMD r =
    (let md = Metadata r;
         output = [];
         output = output @ ''# '' @ Title r @ newline;

         output = output @ newline;
         output = (if Rating md \<noteq> 0
                   then output @ ''Rating: '' @ fmt_int (Rating md) @ ''-star'' @ newline
                   else output);
         output = (if len (CollectionList md) > 0
                   then output @ ''Collections: '' @ Join (elems (CollectionList md)) '', '' @ newline
                   else output);
         output = (if len (CourseList md) > 0
                   then output @ ''Course: '' @ Join (elems (CourseList md)) '', '' @ newline
                   else output);

         output = output @ newline;
         output = (if Source md \<noteq> []
                   then output @ ''Source: '' @ Source md @ newline
                   else output);

         output = output @ newline;
         output = (if 0 <s CookTime md
                   then output @ ''Cook Time: '' @ Duration_String (CookTime md) @ newline
                   else output);
         output = (if 0 <s PrepTime md
                   then output @ ''Prep Time: '' @ Duration_String (PrepTime md) @ newline
                   else output);

         output = output @ newline;
         output = (if len (CategoryList md) > 0
                   then output @ ''*'' @ Join (elems (CategoryList md)) '', '' @ ''*'' @ newline
                   else output);

         output = output @ newline;
         output = (if Yield md \<noteq> []
                   then output @ ''**'' @ Yield md @ ''**'' @ newline
                   else output);

         output = output @ newline @ ''---'' @ newline @ newline;

         output = foldl (\<lambda>out ingredient. out @ ''- '' @ ingredient @ newline) output
                    (elems (IngredientLines r));

         output = output @ newline @ ''---'' @ newline @ newline;

         output = output @ ''### Instructions'' @ newline @ newline;
         output = output @ Join (elems (InstructionLines r)) newline;

         output = (if len (NotesLines r) > 0
                   then output @ newline @ newline @ ''### Notes'' @ newline @ newline
                          @ Join (elems (NotesLines r)) newline
                   else output);

         output = output @ newline
     in output)"


section \<open>Auxiliary definitions for the statements\<close>

text \<open>What a failed or successful duration parse leaves in a field that starts at zero.\<close>

definition duration_or_zero :: "Duration result \<Rightarrow> Duration" where
  "duration_or_zero r = (case r of Returns d \<Rightarrow> d | Fails err \<Rightarrow> 0 | Panics \<Rightarrow> 0)"

text \<open>The value \<^verbatim>\<open>ExtractRecipeCourses\<close> reads from one node: the text of a \<^verbatim>\<open>span\<close>, the
  \<^verbatim>\<open>content\<close> attribute of a \<^verbatim>\<open>meta\<close>, nothing from any other element.\<close>

definition course_value :: "node \<Rightarrow> string option" where
  "course_value n =
    (if has_tag ''span'' n then Some (node_text n)
     else if has_tag ''meta'' n then Some (case attr_of ''content'' n of Some v \<Rightarrow> v | None \<Rightarrow> [])
     else None)"

text \<open>Small documents: a recipe container with given children, a \<^verbatim>\<open>meta\<close> element that
  carries a property, and a \<^verbatim>\<open>span\<close> element that carries a property as its text.\<close>

definition recipe_details :: "node list \<Rightarrow> node" where
  "recipe_details cs = ElementNode ''div'' [(''class'', ''recipe-details'')] cs"

definition meta_prop :: "string \<Rightarrow> string \<Rightarrow> node" where
  "meta_prop propName content =
     ElementNode ''meta'' [(''itemprop'', propName), (''content'', content)] []"

definition span_prop :: "string \<Rightarrow> string \<Rightarrow> node" where
  "span_prop propName txt = ElementNode ''span'' [(''itemprop'', propName)] [TextNode txt]"

text \<open>How the text consumed by an expression ends: \<open>2\<close> when every match consumes at
  least one byte and ends with one of the designator letters, \<open>1\<close> when every match that
  consumes anything ends with one of them, \<open>0\<close> when nothing is known.\<close>

fun tailk :: "regex \<Rightarrow> nat" where
  "tailk (Lit c) = (if c \<in> set ''YMDTHS'' then 2 else 0)"
| "tailk Digits = 0"
| "tailk AnyChar = 0"
| "tailk (Seq a b) =
     (if tailk b = 2 then 2
      else if tailk b = 1 then (if tailk a = 2 then 2 else if tailk a = 1 then 1 else 0)
      else 0)"
| "tailk (Opt a) = (if tailk a = 0 then 0 else 1)"
| "tailk (Group i a) = tailk a"

definition tail_ok :: "nat \<Rightarrow> string \<Rightarrow> bool" where
  "tail_ok k u \<longleftrightarrow> (k = 2 \<longrightarrow> u \<noteq> [] \<and> last u \<in> set ''YMDTHS'')
                 \<and> (k = 1 \<longrightarrow> u = [] \<or> last u \<in> set ''YMDTHS'')"

text \<open>The content of a property as the model builder reads it: the \<^verbatim>\<open>content\<close> attribute
  of the first \<^verbatim>\<open>meta\<close> descendant, in document order, whose \<^verbatim>\<open>itemprop\<close> attribute is the
  property name; \<open>None\<close> when there is no such node or it has no such attribute.\<close>

definition meta_content :: "node \<Rightarrow> string \<Rightarrow> string option" where
  "meta_content s propName =
    (case filter (\<lambda>n. has_tag ''meta'' n \<and> attr_equals ''itemprop'' propName n)
            (concat (map subtree (child_nodes s))) of
       [] \<Rightarrow> None
     | n # ns \<Rightarrow> attr_of ''content'' n)"

section \<open>Properties of the fraction normaliser\<close>

subsection \<open>Decoding inverts encoding\<close>

lemma add_mult_mod: "(k * n + a) mod n = a mod (n::nat)" by simp

lemma char_of_nat_bits:
  "char_of (n::nat) = Char (odd n) (odd (n div 2)) (odd (n div 4)) (odd (n div 8))
     (odd (n div 16)) (odd (n div 32)) (odd (n div 64)) (odd (n div 128))"
  by (simp add: char_of_def bit_iff_odd)

lemma byte_char_of: "byte (char_of (n::nat)) = n mod 256"
  by (simp add: byte_def)

lemma split3: "(r::nat) div 4096 * 4096 + (r div 64 mod 64) * 64 + r mod 64 = r"
proof -
  have a: "r div 64 div 64 = r div 4096" by (simp add: div_mult2_eq[symmetric])
  have "r = (r div 64) * 64 + r mod 64" by simp
  also have "r div 64 = (r div 64 div 64) * 64 + r div 64 mod 64" by simp
  finally have "r = ((r div 4096) * 64 + r div 64 mod 64) * 64 + r mod 64" by (simp only: a)
  then show ?thesis by (simp add: algebra_simps)
qed

lemma split4: "(r::nat) div 262144 * 262144 + (r div 4096 mod 64) * 4096 + (r div 64 mod 64) * 64 + r mod 64 = r"
proof -
  have a: "r div 4096 div 64 = r div 262144" by (simp add: div_mult2_eq[symmetric])
  have "r div 4096 = (r div 4096 div 64) * 64 + r div 4096 mod 64" by simp
  then have "r div 4096 * 4096 = (r div 262144 * 64 + r div 4096 mod 64) * 4096" by (simp only: a)
  then have "r div 4096 * 4096 = r div 262144 * 262144 + (r div 4096 mod 64) * 4096" by (simp add: algebra_simps)
  then show ?thesis using split3[of r] by simp
qed

lemma cont_byte: "m < 64 \<Longrightarrow> byte (char_of (0x80 + m :: nat)) = 0x80 + m"
  by (simp add: byte_char_of)

lemma cont_payload: "m < 64 \<Longrightarrow> (0x80 + m) mod 64 = (m::nat)"
  using add_mult_mod[of 2 64 m] by simp

lemma cont_char: "m < 64 \<Longrightarrow> cont (char_of (0x80 + m :: nat))"
  by (simp add: cont_def inrange_def cont_byte)

lemma decode2:
  assumes "2 \<le> q" "q < 32" "m < 64"
  shows "DecodeRune (char_of (0xC0 + q :: nat) # char_of (0x80 + m :: nat) # rest) = (q * 64 + m, 2)"
proof -
  have b0: "byte (char_of (0xC0 + q)) = 0xC0 + q" using assms by (simp add: byte_char_of)
  have p0: "(0xC0 + q) mod 32 = q" using add_mult_mod[of 6 32 q] assms by simp
  have sz: "seq_size (0xC0 + q) = 2" using assms by (simp add: seq_size_def)
  have lo: "accept_lo (0xC0 + q) = 0x80" using assms by (auto simp: accept_lo_def)
  have hi: "accept_hi (0xC0 + q) = 0xBF" using assms by (auto simp: accept_hi_def)
  have dm: "decode_multi (0xC0 + q) (char_of (0x80 + m :: nat) # rest) = (q * 64 + m, 2)"
    using assms by (simp add: decode_multi_def sz lo hi inrange_def cont_byte cont_payload p0)
  show ?thesis using assms by (simp add: DecodeRune_def b0 dm)
qed


lemma decode3:
  assumes "q < 16" "m1 < 64" "m2 < 64" "q = 0 \<longrightarrow> 32 \<le> m1" "q = 13 \<longrightarrow> m1 < 32"
  shows "DecodeRune (char_of (0xE0 + q :: nat) # char_of (0x80 + m1 :: nat)
            # char_of (0x80 + m2 :: nat) # rest) = (q * 4096 + m1 * 64 + m2, 3)"
proof -
  have b0: "byte (char_of (0xE0 + q)) = 0xE0 + q" using assms by (simp add: byte_char_of)
  have p0: "(0xE0 + q) mod 16 = q" using add_mult_mod[of 14 16 q] assms by simp
  have sz: "seq_size (0xE0 + q) = 3" using assms by (simp add: seq_size_def)
  have lo: "accept_lo (0xE0 + q) \<le> 0x80 + m1" using assms by (auto simp: accept_lo_def)
  have hi: "0x80 + m1 \<le> accept_hi (0xE0 + q)" using assms by (auto simp: accept_hi_def)
  have r1: "inrange (accept_lo (0xE0 + q)) (accept_hi (0xE0 + q)) (char_of (0x80 + m1 :: nat))"
    using assms lo hi by (simp add: inrange_def cont_byte)
  have dm: "decode_multi (0xE0 + q)
      (char_of (0x80 + m1 :: nat) # char_of (0x80 + m2 :: nat) # rest) = (q * 4096 + m1 * 64 + m2, 3)"
    using assms by (simp add: decode_multi_def sz r1 cont_char cont_byte cont_payload p0)
  show ?thesis using assms by (simp add: DecodeRune_def b0 dm)
qed

lemma decode4:
  assumes "q < 5" "m1 < 64" "m2 < 64" "m3 < 64" "q = 0 \<longrightarrow> 16 \<le> m1" "q = 4 \<longrightarrow> m1 < 16"
  shows "DecodeRune (char_of (0xF0 + q :: nat) # char_of (0x80 + m1 :: nat)
            # char_of (0x80 + m2 :: nat) # char_of (0x80 + m3 :: nat) # rest)
         = (q * 262144 + m1 * 4096 + m2 * 64 + m3, 4)"
proof -
  have b0: "byte (char_of (0xF0 + q)) = 0xF0 + q" using assms by (simp add: byte_char_of)
  have p0: "(0xF0 + q) mod 8 = q" using add_mult_mod[of 30 8 q] assms by simp
  have sz: "seq_size (0xF0 + q) = 4" using assms by (simp add: seq_size_def)
  have lo: "accept_lo (0xF0 + q) \<le> 0x80 + m1" using assms by (auto simp: accept_lo_def)
  have hi: "0x80 + m1 \<le> accept_hi (0xF0 + q)" using assms by (auto simp: accept_hi_def)
  have r1: "inrange (accept_lo (0xF0 + q)) (accept_hi (0xF0 + q)) (char_of (0x80 + m1 :: nat))"
    using assms lo hi by (simp add: inrange_def cont_byte)
  have dm: "decode_multi (0xF0 + q)
      (char_of (0x80 + m1 :: nat) # char_of (0x80 + m2 :: nat) # char_of (0x80 + m3 :: nat) # rest)
      = (q * 262144 + m1 * 4096 + m2 * 64 + m3, 4)"
    using assms by (simp add: decode_multi_def sz r1 cont_char cont_byte cont_payload p0)
  show ?thesis using assms by (simp add: DecodeRune_def b0 dm)
qed

lemma DecodeRune_EncodeRune:
  assumes v: "valid_rune r"
  shows "DecodeRune (EncodeRune r @ rest) = (r, length (EncodeRune r))"
proof -
  consider "r < 0x80" | "0x80 \<le> r" "r < 0x800" | "0x800 \<le> r" "r < 0x10000" | "0x10000 \<le> r"
    by linarith
  then show ?thesis
  proof cases
    case 1
    then show ?thesis using v
      by (simp add: EncodeRune_def DecodeRune_def byte_char_of)
  next
    case 2
    have e: "EncodeRune r = [char_of (0xC0 + r div 64), char_of (0x80 + r mod 64)]"
      using v 2 by (simp add: EncodeRune_def)
    have "DecodeRune (char_of (0xC0 + r div 64) # char_of (0x80 + r mod 64) # rest)
        = (r div 64 * 64 + r mod 64, 2)"
      using 2 by (intro decode2) simp_all
    then show ?thesis by (simp add: e)
  next
    case 3
    have e: "EncodeRune r = [char_of (0xE0 + r div 4096), char_of (0x80 + (r div 64) mod 64),
        char_of (0x80 + r mod 64)]"
      using v 3 by (simp add: EncodeRune_def)
    have lo: "r div 4096 = 0 \<longrightarrow> 32 \<le> r div 64 mod 64"
    proof
      assume "r div 4096 = 0"
      then have "r < 4096" by simp
      then have "r div 64 mod 64 = r div 64" by simp
      moreover have "32 \<le> r div 64" using 3 by simp
      ultimately show "32 \<le> r div 64 mod 64" by simp
    qed
    have hi: "r div 4096 = 13 \<longrightarrow> r div 64 mod 64 < 32"
    proof
      assume a: "r div 4096 = 13"
      have eq: "r = 13 * 4096 + (r div 64 mod 64) * 64 + r mod 64" using split3[of r] a by simp
      have b: "r div 64 mod 64 < 64" "r mod 64 < 64" by simp_all
      have "r \<le> 57343" using eq b by linarith
      then have "r < 0xD800" using v by (simp add: valid_rune_def)
      with eq have "(r div 64 mod 64) * 64 < 2048" by linarith
      then show "r div 64 mod 64 < 32" by simp
    qed
    have "DecodeRune (char_of (0xE0 + r div 4096) # char_of (0x80 + (r div 64) mod 64)
         # char_of (0x80 + r mod 64) # rest)
        = (r div 4096 * 4096 + (r div 64 mod 64) * 64 + r mod 64, 3)"
      using 3 lo hi by (intro decode3) simp_all
    then show ?thesis by (simp add: e split3)
  next
    case 4
    have le: "r \<le> 0x10FFFF" using v by (simp add: valid_rune_def)
    have e: "EncodeRune r = [char_of (0xF0 + r div 262144), char_of (0x80 + (r div 4096) mod 64),
        char_of (0x80 + (r div 64) mod 64), char_of (0x80 + r mod 64)]"
      using v 4 by (simp add: EncodeRune_def)
    have q: "r div 262144 < 5" using le by simp
    have lo: "r div 262144 = 0 \<longrightarrow> 16 \<le> r div 4096 mod 64"
    proof
      assume "r div 262144 = 0"
      then have "r < 262144" by simp
      then have "r div 4096 mod 64 = r div 4096" by simp
      moreover have "16 \<le> r div 4096" using 4 by simp
      ultimately show "16 \<le> r div 4096 mod 64" by simp
    qed
    have hi: "r div 262144 = 4 \<longrightarrow> r div 4096 mod 64 < 16"
    proof
      assume a: "r div 262144 = 4"
      have "r = 4 * 262144 + (r div 4096 mod 64) * 4096 + (r div 64 mod 64) * 64 + r mod 64"
        using split4[of r] a by simp
      with le have "(r div 4096 mod 64) * 4096 < 65536" by simp
      then show "r div 4096 mod 64 < 16" by simp
    qed
    have "DecodeRune (char_of (0xF0 + r div 262144) # char_of (0x80 + (r div 4096) mod 64)
         # char_of (0x80 + (r div 64) mod 64) # char_of (0x80 + r mod 64) # rest)
        = (r div 262144 * 262144 + (r div 4096 mod 64) * 4096 + (r div 64 mod 64) * 64 + r mod 64, 4)"
      using q lo hi by (intro decode4) simp_all
    then show ?thesis by (simp add: e split4)
  qed
qed


lemma EncodeRune_nonempty: "EncodeRune r \<noteq> []"
  by (simp add: EncodeRune_def Let_def)

lemma ConvertFractions_loop_step:
  assumes "valid_rune r"
  shows "ConvertFractions_loop (EncodeRune r @ rest) acc
       = ConvertFractions_loop rest (acc @ write_rune r)"
proof -
  have ne: "EncodeRune r @ rest \<noteq> []" by (simp add: EncodeRune_nonempty)
  have d: "DecodeRune (EncodeRune r @ rest) = (r, length (EncodeRune r))"
    using assms by (rule DecodeRune_EncodeRune)
  show ?thesis
    by (subst ConvertFractions_loop.simps) (simp add: EncodeRune_nonempty d)
qed

lemma ConvertFractions_loop_runes:
  "\<forall>r \<in> set rs. valid_rune r \<Longrightarrow>
   ConvertFractions_loop (concat (map EncodeRune rs)) acc = acc @ concat (map write_rune rs)"
proof (induction rs arbitrary: acc)
  case Nil
  show ?case by (subst ConvertFractions_loop.simps) simp
next
  case (Cons r rs)
  then have v: "valid_rune r" and vs: "\<forall>r \<in> set rs. valid_rune r" by simp_all
  show ?case using ConvertFractions_loop_step[OF v] Cons.IH[OF vs] by simp
qed


lemmas utf8_eval =
  DecodeRune_def decode_multi_def seq_size_def accept_lo_def accept_hi_def inrange_def
  cont_def byte_def EncodeRune_def valid_rune_def RuneError_def char_of_nat_bits

lemmas ConvertFractions_eval =
  ConvertFractions_def ConvertFractions_loop.simps write_rune_def fractions_def utf8_eval

text \<open>For input without a byte above \<open>0x7F\<close> the loop copies byte by byte.\<close>

lemma ConvertFractions_loop_ascii:
  "\<forall>c \<in> set s. (of_char c :: nat) < 0x80 \<Longrightarrow> ConvertFractions_loop s acc = acc @ s"
proof (induction s arbitrary: acc)
  case Nil
  show ?case by (subst ConvertFractions_loop.simps) simp
next
  case (Cons c s)
  then have c: "(of_char c :: nat) < 0x80" and s: "\<forall>c \<in> set s. (of_char c :: nat) < 0x80"
    by simp_all
  have d: "DecodeRune (c # s) = (of_char c, 1)"
    using c by (simp add: DecodeRune_def byte_def)
  have f: "fractions (of_char c) = None"
    using c by (simp add: fractions_def)
  have e: "EncodeRune (of_char c) = [c]"
    using c by (simp add: EncodeRune_def valid_rune_def)
  show ?case
    by (subst ConvertFractions_loop.simps) (simp add: d write_rune_def f e Cons.IH[OF s])
qed

text \<open>
  Claim C5, as amended.  For every input that is the UTF-8 encoding of a sequence of code
  points, \<^verbatim>\<open>ConvertFractions\<close> returns the concatenation, in order, of the ASCII text
  \<open>a/b\<close> for each of the fifteen fraction code points and of the unchanged encoding of every
  other code point; nothing is inserted around a replacement.  Each of the fifteen glyphs
  alone becomes its ASCII text, an input of ASCII bytes is returned as it is, and so are
  a two-, a three- and a four-byte character that are no fractions.  In particular the
  text "1", one half, " cups" becomes "11/2 cups" and "no fractions" is unchanged.
\<close>

theorem ConvertFractions_utf8:
  "((\<forall>r \<in> set rs. valid_rune r) \<longrightarrow>
      ConvertFractions (concat (map EncodeRune rs))
        = concat (map
              (\<lambda>r. if r = 0xBC then ''1/4'' else if r = 0xBD then ''1/2'' else if r =
              0xBE then ''3/4'' else if r = 0x2153 then ''1/3'' else if r = 0x2154 then
              ''2/3'' else if r = 0x2155 then ''1/5'' else if r = 0x2156 then ''2/5'' else if
              r = 0x2157 then ''3/5'' else if r = 0x2158 then ''4/5'' else if r = 0x2159 then
              ''1/6'' else if r = 0x215A then ''5/6'' else if r = 0x215B then ''1/8'' else if
              r = 0x215C then ''3/8'' else if r = 0x215D then ''5/8'' else if r = 0x215E then
              ''7/8'' else EncodeRune r) rs))
   \<and> ConvertFractions [CHR 0xC2, CHR 0xBC] = ''1/4''
   \<and> ConvertFractions [CHR 0xC2, CHR 0xBD] = ''1/2''
   \<and> ConvertFractions [CHR 0xC2, CHR 0xBE] = ''3/4''
   \<and> ConvertFractions [CHR 0xE2, CHR 0x85, CHR 0x93] = ''1/3''
   \<and> ConvertFractions [CHR 0xE2, CHR 0x85, CHR 0x94] = ''2/3''
   \<and> ConvertFractions [CHR 0xE2, CHR 0x85, CHR 0x95] = ''1/5''
   \<and> ConvertFractions [CHR 0xE2, CHR 0x85, CHR 0x96] = ''2/5''
   \<and> ConvertFractions [CHR 0xE2, CHR 0x85, CHR 0x97] = ''3/5''
   \<and> ConvertFractions [CHR 0xE2, CHR 0x85, CHR 0x98] = ''4/5''
   \<and> ConvertFractions [CHR 0xE2, CHR 0x85, CHR 0x99] = ''1/6''
   \<and> ConvertFractions [CHR 0xE2, CHR 0x85, CHR 0x9A] = ''5/6''
   \<and> ConvertFractions [CHR 0xE2, CHR 0x85, CHR 0x9B] = ''1/8''
   \<and> ConvertFractions [CHR 0xE2, CHR 0x85, CHR 0x9C] = ''3/8''
   \<and> ConvertFractions [CHR 0xE2, CHR 0x85, CHR 0x9D] = ''5/8''
   \<and> ConvertFractions [CHR 0xE2, CHR 0x85, CHR 0x9E] = ''7/8''
   \<and> ((\<forall>c \<in> set s. (of_char c :: nat) < 0x80) \<longrightarrow> ConvertFractions s = s)
   \<and> ConvertFractions [CHR 0xC3, CHR 0xA9] = [CHR 0xC3, CHR 0xA9]
   \<and> ConvertFractions [CHR 0xE2, CHR 0x82, CHR 0xAC] = [CHR 0xE2, CHR 0x82, CHR 0xAC]
   \<and> ConvertFractions [CHR 0xF0, CHR 0x9F, CHR 0x98, CHR 0x80]
        = [CHR 0xF0, CHR 0x9F, CHR 0x98, CHR 0x80]
   \<and> ConvertFractions (''1'' @ [CHR 0xC2, CHR 0xBD] @ '' cups'') = ''11/2 cups''
   \<and> ConvertFractions ''no fractions'' = ''no fractions''"
proof (intro conjI impI)
  have w: "write_rune = (\<lambda>r. if r = 0xBC then ''1/4'' else if r = 0xBD then ''1/2'' else if r =
      0xBE then ''3/4'' else if r = 0x2153 then ''1/3'' else if r = 0x2154 then
      ''2/3'' else if r = 0x2155 then ''1/5'' else if r = 0x2156 then ''2/5'' else if
      r = 0x2157 then ''3/5'' else if r = 0x2158 then ''4/5'' else if r = 0x2159 then
      ''1/6'' else if r = 0x215A then ''5/6'' else if r = 0x215B then ''1/8'' else if
      r = 0x215C then ''3/8'' else if r = 0x215D then ''5/8'' else if r = 0x215E then
      ''7/8'' else EncodeRune r)"
    by (rule ext) (simp add: write_rune_def fractions_def)
  assume "\<forall>r \<in> set rs. valid_rune r"
  then show "ConvertFractions (concat (map EncodeRune rs))
        = concat (map
              (\<lambda>r. if r = 0xBC then ''1/4'' else if r = 0xBD then ''1/2'' else if r =
              0xBE then ''3/4'' else if r = 0x2153 then ''1/3'' else if r = 0x2154 then
              ''2/3'' else if r = 0x2155 then ''1/5'' else if r = 0x2156 then ''2/5'' else if
              r = 0x2157 then ''3/5'' else if r = 0x2158 then ''4/5'' else if r = 0x2159 then
              ''1/6'' else if r = 0x215A then ''5/6'' else if r = 0x215B then ''1/8'' else if
              r = 0x215C then ''3/8'' else if r = 0x215D then ''5/8'' else if r = 0x215E then
              ''7/8'' else EncodeRune r) rs)"
    using ConvertFractions_loop_runes[of rs "[]"] by (simp add: ConvertFractions_def w)
next
  assume "\<forall>c \<in> set s. (of_char c :: nat) < 0x80"
  then show "ConvertFractions s = s"
    by (simp add: ConvertFractions_def ConvertFractions_loop_ascii)
next
  show "ConvertFractions [CHR 0xC2, CHR 0xBC] = ''1/4''"
    by (simp add: ConvertFractions_eval)
  show "ConvertFractions [CHR 0xC2, CHR 0xBD] = ''1/2''"
    by (simp add: ConvertFractions_eval)
  show "ConvertFractions [CHR 0xC2, CHR 0xBE] = ''3/4''"
    by (simp add: ConvertFractions_eval)
  show "ConvertFractions [CHR 0xE2, CHR 0x85, CHR 0x93] = ''1/3''"
    by (simp add: ConvertFractions_eval)
  show "ConvertFractions [CHR 0xE2, CHR 0x85, CHR 0x94] = ''2/3''"
    by (simp add: ConvertFractions_eval)
  show "ConvertFractions [CHR 0xE2, CHR 0x85, CHR 0x95] = ''1/5''"
    by (simp add: ConvertFractions_eval)
  show "ConvertFractions [CHR 0xE2, CHR 0x85, CHR 0x96] = ''2/5''"
    by (simp add: ConvertFractions_eval)
  show "ConvertFractions [CHR 0xE2, CHR 0x85, CHR 0x97] = ''3/5''"
    by (simp add: ConvertFractions_eval)
  show "ConvertFractions [CHR 0xE2, CHR 0x85, CHR 0x98] = ''4/5''"
    by (simp add: ConvertFractions_eval)
  show "ConvertFractions [CHR 0xE2, CHR 0x85, CHR 0x99] = ''1/6''"
    by (simp add: ConvertFractions_eval)
  show "ConvertFractions [CHR 0xE2, CHR 0x85, CHR 0x9A] = ''5/6''"
    by (simp add: ConvertFractions_eval)
  show "ConvertFractions [CHR 0xE2, CHR 0x85, CHR 0x9B] = ''1/8''"
    by (simp add: ConvertFractions_eval)
  show "ConvertFractions [CHR 0xE2, CHR 0x85, CHR 0x9C] = ''3/8''"
    by (simp add: ConvertFractions_eval)
  show "ConvertFractions [CHR 0xE2, CHR 0x85, CHR 0x9D] = ''5/8''"
    by (simp add: ConvertFractions_eval)
  show "ConvertFractions [CHR 0xE2, CHR 0x85, CHR 0x9E] = ''7/8''"
    by (simp add: ConvertFractions_eval)
  show "ConvertFractions [CHR 0xC3, CHR 0xA9] = [CHR 0xC3, CHR 0xA9]"
    by (simp add: ConvertFractions_eval)
  show "ConvertFractions [CHR 0xE2, CHR 0x82, CHR 0xAC] = [CHR 0xE2, CHR 0x82, CHR 0xAC]"
    by (simp add: ConvertFractions_eval)
  show "ConvertFractions [CHR 0xF0, CHR 0x9F, CHR 0x98, CHR 0x80]
        = [CHR 0xF0, CHR 0x9F, CHR 0x98, CHR 0x80]"
    by (simp add: ConvertFractions_eval)
  show "ConvertFractions (''1'' @ [CHR 0xC2, CHR 0xBD] @ '' cups'') = ''11/2 cups''"
    by (simp add: ConvertFractions_eval)
  show "ConvertFractions ''no fractions'' = ''no fractions''"
    by (simp add: ConvertFractions_eval)
qed

text \<open>The general statements at the code points of "1", one third and "c", and at the
  ASCII text "2 cups".\<close>

theorem ConvertFractions_utf8_witness:
  "valid_rune 0x31 \<and> valid_rune 0x2153 \<and> valid_rune 0x63
   \<and> ConvertFractions (''1'' @ [CHR 0xE2, CHR 0x85, CHR 0x93] @ ''c'') = ''11/3c''
   \<and> (of_char (CHR ''2'') :: nat) < 0x80 \<and> (of_char (CHR '' '') :: nat) < 0x80
   \<and> (of_char (CHR ''c'') :: nat) < 0x80 \<and> (of_char (CHR ''u'') :: nat) < 0x80
   \<and> (of_char (CHR ''p'') :: nat) < 0x80 \<and> (of_char (CHR ''s'') :: nat) < 0x80
   \<and> ConvertFractions ''2 cups'' = ''2 cups''"
  using ConvertFractions_utf8[of "[0x31, 0x2153, 0x63]" "''2 cups''"]
  by (simp add: utf8_eval)

text \<open>
  Claim C5 as stated fails on input that is not valid UTF-8.  Neither the byte \<open>0xFF\<close>
  nor the truncated sequence \<open>0xE2 0xBD\<close> contains a fraction glyph, yet they do not pass
  through unchanged: each byte is written as the three bytes of U+FFFD.
\<close>

theorem ConvertFractions_invalid_byte:
  "ConvertFractions [CHR 0xFF] = [CHR 0xEF, CHR 0xBF, CHR 0xBD]
   \<and> ConvertFractions [CHR 0xFF] \<noteq> [CHR 0xFF]
   \<and> ConvertFractions [CHR 0xE2, CHR 0xBD]
       = [CHR 0xEF, CHR 0xBF, CHR 0xBD, CHR 0xEF, CHR 0xBF, CHR 0xBD]
   \<and> ConvertFractions [CHR 0xE2, CHR 0xBD] \<noteq> [CHR 0xE2, CHR 0xBD]"
  by (simp add: ConvertFractions_eval)

section \<open>The duration parser never panics\<close>

lemma FindStringSubmatch_length:
  "FindStringSubmatch s = Some matches \<Longrightarrow> length matches = 7"
  by (auto simp: FindStringSubmatch_def split: list.splits)

lemma component_cases:
  assumes "i < length matches"
  shows "component matches i factors seconds =
     (if matches ! i \<noteq> [] then
        (case ParseFloat32 (matches ! i) of
           Inl err \<Rightarrow> Fails err
         | Inr f \<Rightarrow> Returns (add64 seconds (foldl mul64 f factors)))
      else Returns seconds)"
  using assms by (simp add: component_def index_def bind_def)

lemma component_no_panic:
  "i < length matches \<Longrightarrow> component matches i factors seconds \<noteq> Panics"
  by (simp add: component_cases split: sum.split)

lemma bind_no_panic:
  "m \<noteq> Panics \<Longrightarrow> (\<And>x. f x \<noteq> Panics) \<Longrightarrow> bind m f \<noteq> Panics"
  by (cases m) (simp_all add: bind_def)

lemma ParseISODuration_no_panic: "ParseISODuration s \<noteq> Panics"
proof (cases "FindStringSubmatch s")
  case None
  then show ?thesis by (simp add: ParseISODuration_def)
next
  case (Some matches)
  then have len: "length matches = 7" by (rule FindStringSubmatch_length)
  have fin: "\<And>seconds. (case ParseDuration (FormatFloat32 seconds @ ''s'') of
             Inl err \<Rightarrow> Fails err | Inr d \<Rightarrow> Returns d) \<noteq> Panics"
    by (simp split: sum.split)
  show ?thesis
    unfolding ParseISODuration_def Some option.case
    by (intro bind_no_panic component_no_panic fin) (simp_all add: len)
qed


lemma ExtractRecipeMetadata_fields:
  obtains md where
    "ExtractRecipeMetadata s = Returns md"
    "Favorited md = (ItemPropContentOr s ''recipeIsFavourite'' ''False'' = ''True'')"
    "CategoryList md = ItemPropContentList s ''recipeCategory''"
    "CollectionList md = ItemPropContentList s ''recipeCollection''"
    "CourseList md = ExtractRecipeCourses s"
    "PrepTime md = duration_or_zero
        (ParseISODuration (TrimSpace (ItemPropContentOr s ''prepTime'' ''PT50S'')))"
    "CookTime md = duration_or_zero (ParseISODuration (ItemPropContentOr s ''cookTime'' ''PT0S''))"
proof -
  let ?p = "ParseISODuration (TrimSpace (ItemPropContentOr s ''prepTime'' ''PT50S''))"
  let ?c = "ParseISODuration (ItemPropContentOr s ''cookTime'' ''PT0S'')"
  have p: "?p \<noteq> Panics" and c: "?c \<noteq> Panics" by (rule ParseISODuration_no_panic)+
  have "\<exists>md. ExtractRecipeMetadata s = Returns md
    \<and> Favorited md = (ItemPropContentOr s ''recipeIsFavourite'' ''False'' = ''True'')
    \<and> CategoryList md = ItemPropContentList s ''recipeCategory''
    \<and> CollectionList md = ItemPropContentList s ''recipeCollection''
    \<and> CourseList md = ExtractRecipeCourses s
    \<and> PrepTime md = duration_or_zero ?p
    \<and> CookTime md = duration_or_zero ?c"
    using p c
    by (cases ?p; cases ?c)
       (simp_all add: ExtractRecipeMetadata_def Let_def bind_def assign_if_ok_def
          duration_or_zero_def zero_RecipeMetadata_def split: option.split)
  then show ?thesis using that by blast
qed



section \<open>Properties of the extractor and the model builder\<close>

lemmas dom_eval =
  ItemProp_def Find_def itemprop_selector_def recipe_details_def meta_prop_def span_prop_def
  Each_def AttrOr_def Text_def make_slice_def append_def Children_def

lemma foldl_filter_map:
  "foldl (\<lambda>acc n. case g n of Some v \<Rightarrow> if v \<noteq> [] then append acc v else acc | None \<Rightarrow> acc) acc0 sel
     = (if acc0 = NilSlice \<and> filter (\<lambda>v. v \<noteq> []) (List.map_filter g sel) = [] then NilSlice
        else Slice (elems acc0 @ filter (\<lambda>v. v \<noteq> []) (List.map_filter g sel)))"
proof (induction sel arbitrary: acc0)
  case Nil
  then show ?case by (cases acc0) (simp_all add: List.map_filter_simps)
next
  case (Cons n sel)
  show ?case
    by (cases "g n"; cases acc0)
       (simp_all add: Cons.IH List.map_filter_simps append_def)
qed

lemma Each_filter_map:
  "Each sel (\<lambda>n acc. case g n of Some v \<Rightarrow> if v \<noteq> [] then append acc v else acc | None \<Rightarrow> acc) make_slice
     = Slice (filter (\<lambda>v. v \<noteq> []) (List.map_filter g sel))"
  by (simp add: Each_def foldl_filter_map make_slice_def)

lemma courses_callback:
  "(\<lambda>elem courses.
          if has_tag ''span'' elem then
            (let course = Text [elem] in
             if course \<noteq> [] then append courses course else courses)
          else if has_tag ''meta'' elem then
            (let course = AttrOr [elem] ''content'' [] in
             if course \<noteq> [] then append courses course else courses)
          else courses)
   = (\<lambda>n acc. case course_value n of Some v \<Rightarrow> if v \<noteq> [] then append acc v else acc | None \<Rightarrow> acc)"
  by (intro ext) (simp add: course_value_def Text_def AttrOr_def Let_def)

lemma ItemProp_any_tag:
  "ItemProp s [] propName
     = filter (attr_equals ''itemprop'' propName) (concat (map subtree (child_nodes s)))"
proof -
  have sel: "itemprop_selector [] propName = attr_equals ''itemprop'' propName"
  proof (rule ext)
    fix n show "itemprop_selector [] propName n = attr_equals ''itemprop'' propName n"
      by (cases n) (simp_all add: itemprop_selector_def)
  qed
  have one: "filter (attr_equals ''itemprop'' propName) (subtree c) = []" if "\<not> is_element c" for c
    using that by (cases c) simp_all
  have "concat (map (\<lambda>c. filter (attr_equals ''itemprop'' propName) (subtree c)) (filter is_element cs))
      = filter (attr_equals ''itemprop'' propName) (concat (map subtree cs))" for cs
    by (induction cs) (simp_all add: one)
  then show ?thesis by (simp add: ItemProp_def Find_def sel)
qed

text \<open>
  Claim C7.  \<^verbatim>\<open>ExtractRecipeCourses\<close> goes through the descendants of the fragment in
  document order (every node before its children, children from first to last), reads
  those whose \<^verbatim>\<open>itemprop\<close> attribute is \<^verbatim>\<open>recipeCourse\<close>, takes the text of a \<^verbatim>\<open>span\<close> and
  the \<^verbatim>\<open>content\<close> attribute of a \<^verbatim>\<open>meta\<close>, and keeps the values that are not empty, in
  that order.  A \<^verbatim>\<open>meta\<close> with content "Dinner" followed by a \<^verbatim>\<open>span\<close> with text "Quick"
  gives "Dinner", "Quick".  In the second document a \<^verbatim>\<open>span\<close> for another property, a
  \<^verbatim>\<open>meta\<close> with empty content and a \<^verbatim>\<open>p\<close> that carries the property contribute nothing,
  course nodes nested in a \<^verbatim>\<open>div\<close> are found, and a \<^verbatim>\<open>span\<close> comes before the course \<^verbatim>\<open>meta\<close>
  nested in it.
\<close>

theorem ExtractRecipeCourses_order:
  "ExtractRecipeCourses s
     = Slice (filter (\<lambda>v. v \<noteq> [])
         (List.map_filter
            (\<lambda>n. if has_tag ''span'' n then Some (node_text n)
                 else if has_tag ''meta'' n
                 then Some (case attr_of ''content'' n of Some v \<Rightarrow> v | None \<Rightarrow> [])
                 else None)
            (filter (attr_equals ''itemprop'' ''recipeCourse'')
               (concat (map subtree (child_nodes s))))))
   \<and> ExtractRecipeCourses
        (ElementNode ''div'' [(''class'', ''recipe-details'')]
          [ElementNode ''meta'' [(''itemprop'', ''recipeCourse''), (''content'', ''Dinner'')] [],
           ElementNode ''span'' [(''itemprop'', ''recipeCourse'')] [TextNode ''Quick'']])
     = Slice [''Dinner'', ''Quick'']
   \<and> ExtractRecipeCourses
        (ElementNode ''div'' [(''class'', ''recipe-details'')]
          [ElementNode ''span'' [(''itemprop'', ''name'')] [TextNode ''Soup''],
           TextNode ''Lunch'',
           ElementNode ''div'' []
             [ElementNode ''meta'' [(''itemprop'', ''recipeCourse''), (''content'', ''Dinner'')] [],
              ElementNode ''span'' [(''itemprop'', ''recipeCourse'')] [TextNode ''Quick'']],
           ElementNode ''meta'' [(''itemprop'', ''recipeCourse''), (''content'', [])] [],
           ElementNode ''meta'' [(''itemprop'', ''recipeCategory''), (''content'', ''Soups'')] [],
           ElementNode ''p'' [(''itemprop'', ''recipeCourse'')] [TextNode ''Ignored''],
           ElementNode ''span'' [(''itemprop'', ''recipeCourse'')]
             [TextNode ''Main'',
              ElementNode ''meta'' [(''itemprop'', ''recipeCourse''), (''content'', ''Side'')] []]])
     = Slice [''Dinner'', ''Quick'', ''Main'', ''Side'']"
proof (intro conjI)
  have cv: "course_value = (\<lambda>n. if has_tag ''span'' n then Some (node_text n)
                 else if has_tag ''meta'' n
                 then Some (case attr_of ''content'' n of Some v \<Rightarrow> v | None \<Rightarrow> [])
                 else None)"
    by (rule ext) (simp add: course_value_def)
  have g: "ExtractRecipeCourses s
     = Slice (filter (\<lambda>v. v \<noteq> []) (List.map_filter course_value (ItemProp s [] ''recipeCourse'')))" for s
    unfolding ExtractRecipeCourses_def courses_callback
    by (simp add: Each_filter_map)
  show "ExtractRecipeCourses s
     = Slice (filter (\<lambda>v. v \<noteq> [])
         (List.map_filter
            (\<lambda>n. if has_tag ''span'' n then Some (node_text n)
                 else if has_tag ''meta'' n
                 then Some (case attr_of ''content'' n of Some v \<Rightarrow> v | None \<Rightarrow> [])
                 else None)
            (filter (attr_equals ''itemprop'' ''recipeCourse'')
               (concat (map subtree (child_nodes s))))))"
    by (simp add: g ItemProp_any_tag cv)
  show "ExtractRecipeCourses
        (ElementNode ''div'' [(''class'', ''recipe-details'')]
          [ElementNode ''meta'' [(''itemprop'', ''recipeCourse''), (''content'', ''Dinner'')] [],
           ElementNode ''span'' [(''itemprop'', ''recipeCourse'')] [TextNode ''Quick'']])
     = Slice [''Dinner'', ''Quick'']"
    by (simp add: g dom_eval course_value_def List.map_filter_simps)
  show "ExtractRecipeCourses
        (ElementNode ''div'' [(''class'', ''recipe-details'')]
          [ElementNode ''span'' [(''itemprop'', ''name'')] [TextNode ''Soup''],
           TextNode ''Lunch'',
           ElementNode ''div'' []
             [ElementNode ''meta'' [(''itemprop'', ''recipeCourse''), (''content'', ''Dinner'')] [],
              ElementNode ''span'' [(''itemprop'', ''recipeCourse'')] [TextNode ''Quick'']],
           ElementNode ''meta'' [(''itemprop'', ''recipeCourse''), (''content'', [])] [],
           ElementNode ''meta'' [(''itemprop'', ''recipeCategory''), (''content'', ''Soups'')] [],
           ElementNode ''p'' [(''itemprop'', ''recipeCourse'')] [TextNode ''Ignored''],
           ElementNode ''span'' [(''itemprop'', ''recipeCourse'')]
             [TextNode ''Main'',
              ElementNode ''meta'' [(''itemprop'', ''recipeCourse''), (''content'', ''Side'')] []]])
     = Slice [''Dinner'', ''Quick'', ''Main'', ''Side'']"
    by (simp add: g dom_eval course_value_def List.map_filter_simps)
qed

text \<open>
  Claim C6.  The metadata of every fragment is built, and its \<^verbatim>\<open>Favorited\<close> flag is true
  exactly when the content read for \<^verbatim>\<open>recipeIsFavourite\<close> (by default "False") is the
  string "True".  For a fragment whose flag node has content \<open>c\<close> the flag is true exactly
  when \<open>c\<close> is "True"; it is false for "true", "false" and "TRUE".
\<close>

theorem Favorited_iff_True:
  "(\<exists>md. ExtractRecipeMetadata s = Returns md \<and>
      (Favorited md \<longleftrightarrow> ItemPropContentOr s ''recipeIsFavourite'' ''False'' = ''True''))
   \<and> (\<exists>md. ExtractRecipeMetadata (recipe_details [meta_prop ''recipeIsFavourite'' c]) = Returns md \<and>
      (Favorited md \<longleftrightarrow> c = ''True''))
   \<and> (\<exists>md. ExtractRecipeMetadata (recipe_details [meta_prop ''recipeIsFavourite'' ''true'']) = Returns md \<and>
      \<not> Favorited md)
   \<and> (\<exists>md. ExtractRecipeMetadata (recipe_details [meta_prop ''recipeIsFavourite'' ''false'']) = Returns md \<and>
      \<not> Favorited md)
   \<and> (\<exists>md. ExtractRecipeMetadata (recipe_details [meta_prop ''recipeIsFavourite'' ''TRUE'']) = Returns md \<and>
      \<not> Favorited md)"
proof -
  have g: "\<exists>md. ExtractRecipeMetadata s = Returns md \<and>
      (Favorited md \<longleftrightarrow> ItemPropContentOr s ''recipeIsFavourite'' ''False'' = ''True'')" for s
    using ExtractRecipeMetadata_fields[of s] by metis
  have c: "ItemPropContentOr (recipe_details [meta_prop ''recipeIsFavourite'' c]) ''recipeIsFavourite'' ''False'' = c" for c
    by (simp add: ItemPropContentOr_def ItemPropAttrOr_def dom_eval)
  show ?thesis
    using g[of s] g[of "recipe_details [meta_prop ''recipeIsFavourite'' c]"]
      g[of "recipe_details [meta_prop ''recipeIsFavourite'' ''true'']"]
      g[of "recipe_details [meta_prop ''recipeIsFavourite'' ''false'']"]
      g[of "recipe_details [meta_prop ''recipeIsFavourite'' ''TRUE'']"]
    by (simp add: c)
qed

lemma foldl_not_nil:
  assumes "\<And>n a. a \<noteq> NilSlice \<Longrightarrow> f n a \<noteq> NilSlice" and "acc \<noteq> NilSlice"
  shows "foldl (\<lambda>a n. f n a) acc sel \<noteq> NilSlice"
  using assms(2) by (induction sel arbitrary: acc) (simp_all add: assms(1))

lemma Each_not_nil:
  assumes "\<And>n a. a \<noteq> NilSlice \<Longrightarrow> f n a \<noteq> NilSlice"
  shows "Each sel f make_slice \<noteq> NilSlice"
  unfolding Each_def by (rule foldl_not_nil) (simp_all add: assms make_slice_def)

lemma ItemPropContentList_not_nil: "ItemPropContentList s p \<noteq> NilSlice"
  unfolding ItemPropContentList_def by (rule Each_not_nil) (simp add: Let_def append_def)

lemma ItemPropChildrenText_not_nil: "ItemPropChildrenText s p \<noteq> NilSlice"
  unfolding ItemPropChildrenText_def by (rule Each_not_nil) (simp add: Let_def append_def)

lemma ExtractRecipeCourses_not_nil: "ExtractRecipeCourses s \<noteq> NilSlice"
  unfolding ExtractRecipeCourses_def by (rule Each_not_nil) (simp add: Let_def append_def)

lemma ExtractRecipePhotos_not_nil: "ExtractRecipePhotos s \<noteq> NilSlice"
  unfolding ExtractRecipePhotos_def by (rule Each_not_nil) (simp add: Let_def append_def)

text \<open>
  Claim C9.  A recipe is built from every fragment, and each of its list-valued fields
  (photo paths, ingredient, instruction and notes lines, category, collection and course
  lists) is a present slice, not \<^verbatim>\<open>nil\<close>.  When no \<^verbatim>\<open>meta\<close> node carries the property,
  \<^verbatim>\<open>ItemPropContentList\<close> returns the empty slice.
\<close>

theorem list_fields_never_nil:
  "(\<exists>r. ExtractRecipe s = Returns r
      \<and> PhotoPaths r \<noteq> NilSlice
      \<and> IngredientLines r \<noteq> NilSlice
      \<and> InstructionLines r \<noteq> NilSlice
      \<and> NotesLines r \<noteq> NilSlice
      \<and> CategoryList (Metadata r) \<noteq> NilSlice
      \<and> CollectionList (Metadata r) \<noteq> NilSlice
      \<and> CourseList (Metadata r) \<noteq> NilSlice)
   \<and> (ItemProp s ''meta'' propName = [] \<longrightarrow> ItemPropContentList s propName = Slice [])"
proof
  obtain md where md: "ExtractRecipeMetadata s = Returns md"
    "CategoryList md = ItemPropContentList s ''recipeCategory''"
    "CollectionList md = ItemPropContentList s ''recipeCollection''"
    "CourseList md = ExtractRecipeCourses s"
    by (rule ExtractRecipeMetadata_fields)
  show "\<exists>r. ExtractRecipe s = Returns r
      \<and> PhotoPaths r \<noteq> NilSlice
      \<and> IngredientLines r \<noteq> NilSlice
      \<and> InstructionLines r \<noteq> NilSlice
      \<and> NotesLines r \<noteq> NilSlice
      \<and> CategoryList (Metadata r) \<noteq> NilSlice
      \<and> CollectionList (Metadata r) \<noteq> NilSlice
      \<and> CourseList (Metadata r) \<noteq> NilSlice"
    by (simp add: ExtractRecipe_def Let_def bind_def md ItemPropContentList_not_nil
        ItemPropChildrenText_not_nil ExtractRecipeCourses_not_nil ExtractRecipePhotos_not_nil)
  show "ItemProp s ''meta'' propName = [] \<longrightarrow> ItemPropContentList s propName = Slice []"
    by (simp add: ItemPropContentList_def Each_def make_slice_def)
qed

text \<open>A fragment without children has no category node.\<close>

theorem list_fields_never_nil_witness:
  "ItemProp (recipe_details []) ''meta'' ''recipeCategory'' = []
   \<and> ItemPropContentList (recipe_details []) ''recipeCategory'' = Slice []"
  using list_fields_never_nil[of "recipe_details []" "''recipeCategory''"]
  by (simp add: dom_eval)



section \<open>Properties of the renderer\<close>

lemma foldl_append_lines:
  "foldl (\<lambda>out x. out @ f x) acc xs = acc @ concat (map f xs)"
  by (induction xs arbitrary: acc) simp_all

text \<open>
  Claim C3.  For a recipe whose rating is 0 and whose collection and course lists are
  empty, the rendered text is the title line followed by the later blocks: no rating,
  collections or course line is written, while the blank line that opens each block is
  (so blank lines pile up where a block is skipped).  The cook-time line is present
  exactly when the cook time is greater than zero, and likewise the prep-time line.
\<close>

theorem FormatAsRecipeMD_blocks_skipped:
  assumes "Rating (Metadata r) = 0"
    and "len (CollectionList (Metadata r)) = 0"
    and "len (CourseList (Metadata r)) = 0"
  shows "FormatAsRecipeMD r =
      ''# '' @ Title r @ [CHR 0x0A]
    @ [CHR 0x0A]
    @ [CHR 0x0A]
    @ (if Source (Metadata r) \<noteq> [] then ''Source: '' @ Source (Metadata r) @ [CHR 0x0A] else [])
    @ [CHR 0x0A]
    @ (if 0 <s CookTime (Metadata r)
       then ''Cook Time: '' @ Duration_String (CookTime (Metadata r)) @ [CHR 0x0A] else [])
    @ (if 0 <s PrepTime (Metadata r)
       then ''Prep Time: '' @ Duration_String (PrepTime (Metadata r)) @ [CHR 0x0A] else [])
    @ [CHR 0x0A]
    @ (if len (CategoryList (Metadata r)) > 0
       then ''*'' @ Join (elems (CategoryList (Metadata r))) '', '' @ ''*'' @ [CHR 0x0A] else [])
    @ [CHR 0x0A]
    @ (if Yield (Metadata r) \<noteq> [] then ''**'' @ Yield (Metadata r) @ ''**'' @ [CHR 0x0A] else [])
    @ [CHR 0x0A] @ ''---'' @ [CHR 0x0A, CHR 0x0A]
    @ concat (map (\<lambda>ingredient. ''- '' @ ingredient @ [CHR 0x0A]) (elems (IngredientLines r)))
    @ [CHR 0x0A] @ ''---'' @ [CHR 0x0A, CHR 0x0A]
    @ ''### Instructions'' @ [CHR 0x0A, CHR 0x0A]
    @ Join (elems (InstructionLines r)) [CHR 0x0A]
    @ (if len (NotesLines r) > 0
       then [CHR 0x0A, CHR 0x0A] @ ''### Notes'' @ [CHR 0x0A, CHR 0x0A]
              @ Join (elems (NotesLines r)) [CHR 0x0A]
       else [])
    @ [CHR 0x0A]"
  using assms by (simp add: FormatAsRecipeMD_def Let_def foldl_append_lines newline_def)

text \<open>Evaluation of \<^verbatim>\<open>Duration.String\<close> on numerals.\<close>

lemma fmtFrac_numeral:
  "fmtFrac (numeral k) v print buf =
    fmtFrac (pred_numeral k) (v div 10) (print \<or> v mod 10 \<noteq> 0)
      (if print \<or> v mod 10 \<noteq> 0 then digit_char (v mod 10) # buf else buf)"
proof -
  have h: "numeral k = Suc (pred_numeral k)" by (rule numeral_eq_Suc)
  show ?thesis by (simp only: h fmtFrac.simps)
qed

lemmas Duration_String_eval =
  Duration_String_def format_small_def format_large_def fmtInt_def digits_of.simps digit_char_def
  char_of_nat_bits fmtFrac_numeral

lemma Duration_String_50s: "Duration_String 50000000000 = ''50s''"
  by (simp add: Duration_String_eval)

text \<open>A recipe that has only a title and a prep time of 50 seconds, and one that has a
  title, a source, a cook time of an hour and a half, two ingredients, two instruction
  lines and a note.  The bytes of the output are written out; \<open>0x0A\<close> is the line feed.\<close>

theorem FormatAsRecipeMD_blocks_skipped_witness:
  "Rating (Metadata (zero_Recipe\<lparr>Title := ''Soup'',
        Metadata := zero_RecipeMetadata\<lparr>PrepTime := 50000000000\<rparr>\<rparr>)) = 0
   \<and> len (CollectionList (Metadata (zero_Recipe\<lparr>Title := ''Soup'',
        Metadata := zero_RecipeMetadata\<lparr>PrepTime := 50000000000\<rparr>\<rparr>))) = 0
   \<and> len (CourseList (Metadata (zero_Recipe\<lparr>Title := ''Soup'',
        Metadata := zero_RecipeMetadata\<lparr>PrepTime := 50000000000\<rparr>\<rparr>))) = 0
   \<and> FormatAsRecipeMD (zero_Recipe\<lparr>Title := ''Soup'',
        Metadata := zero_RecipeMetadata\<lparr>PrepTime := 50000000000\<rparr>\<rparr>)
     = ''# Soup'' @ [CHR 0x0A, CHR 0x0A, CHR 0x0A, CHR 0x0A]
       @ ''Prep Time: 50s'' @ [CHR 0x0A, CHR 0x0A, CHR 0x0A, CHR 0x0A]
       @ ''---'' @ [CHR 0x0A, CHR 0x0A, CHR 0x0A]
       @ ''---'' @ [CHR 0x0A, CHR 0x0A]
       @ ''### Instructions'' @ [CHR 0x0A, CHR 0x0A, CHR 0x0A]
   \<and> FormatAsRecipeMD
        \<lparr>Title = ''Stew'', Nutrition = zero_RecipeNutrition,
         Metadata = \<lparr>UUID = ''id'', Favorited = False, Rating = 0, Source = ''Gran'',
                     CategoryList = Slice [], CourseList = Slice [], CollectionList = NilSlice,
                     Yield = [], CookTime = 5400000000000, PrepTime = 0\<rparr>,
         PhotoPaths = Slice [], IngredientLines = Slice [''1 onion'', ''2 leeks''],
         InstructionLines = Slice [''Chop.'', ''Boil.''], NotesLines = Slice [''Salt.'']\<rparr>
     = ''# Stew'' @ [CHR 0x0A, CHR 0x0A, CHR 0x0A]
       @ ''Source: Gran'' @ [CHR 0x0A, CHR 0x0A]
       @ ''Cook Time: 1h30m0s'' @ [CHR 0x0A, CHR 0x0A, CHR 0x0A, CHR 0x0A]
       @ ''---'' @ [CHR 0x0A, CHR 0x0A]
       @ ''- 1 onion'' @ [CHR 0x0A] @ ''- 2 leeks'' @ [CHR 0x0A, CHR 0x0A]
       @ ''---'' @ [CHR 0x0A, CHR 0x0A]
       @ ''### Instructions'' @ [CHR 0x0A, CHR 0x0A]
       @ ''Chop.'' @ [CHR 0x0A] @ ''Boil.'' @ [CHR 0x0A, CHR 0x0A]
       @ ''### Notes'' @ [CHR 0x0A, CHR 0x0A]
       @ ''Salt.'' @ [CHR 0x0A]"
proof -
  have d: "Duration_String 5400000000000 = ''1h30m0s''"
    by (simp add: Duration_String_eval)
  show ?thesis
    using FormatAsRecipeMD_blocks_skipped[of "zero_Recipe\<lparr>Title := ''Soup'',
        Metadata := zero_RecipeMetadata\<lparr>PrepTime := 50000000000\<rparr>\<rparr>"]
      FormatAsRecipeMD_blocks_skipped[of
        "\<lparr>Title = ''Stew'', Nutrition = zero_RecipeNutrition,
         Metadata = \<lparr>UUID = ''id'', Favorited = False, Rating = 0, Source = ''Gran'',
                     CategoryList = Slice [], CourseList = Slice [], CollectionList = NilSlice,
                     Yield = [], CookTime = 5400000000000, PrepTime = 0\<rparr>,
         PhotoPaths = Slice [], IngredientLines = Slice [''1 onion'', ''2 leeks''],
         InstructionLines = Slice [''Chop.'', ''Boil.''], NotesLines = Slice [''Salt.'']\<rparr>"]
    by (simp add: zero_Recipe_def zero_RecipeMetadata_def len_def Duration_String_50s d
        word_sless_alt)
qed


section \<open>Properties of the duration parser\<close>

subsection \<open>Evaluation on numerals\<close>

lemma bitlen_0: "bitlen 0 = 0" by (simp add: bitlen.simps)
lemma bitlen_1: "bitlen (Suc 0) = 1" by (simp add: bitlen.simps)
lemma bitlen_numeral: "bitlen (numeral k) = Suc (bitlen (numeral k div 2))"
  by (subst bitlen.simps) simp
lemma declen_0: "declen 0 = 0" by (simp add: declen.simps)
lemma declen_1: "declen (Suc 0) = 1" by (subst declen.simps) (simp add: declen_0)
lemma declen_numeral: "declen (numeral k) = Suc (declen (numeral k div 10))"
  by (subst declen.simps) simp

lemma floor_rat_divide_numeral: "\<lfloor>numeral a / numeral b :: rat\<rfloor> = numeral a div numeral b"
  by (metis floor_divide_of_int_eq of_int_numeral)
lemma floor_rat_one_divide_numeral: "\<lfloor>1 / numeral b :: rat\<rfloor> = 1 div numeral b"
  by (metis floor_divide_of_int_eq of_int_1 of_int_numeral)
lemma ceiling_rat_divide_numeral: "\<lceil>numeral a / numeral b :: rat\<rceil> = - (- numeral a div numeral b)"
  using ceiling_divide_eq_div[of "numeral a" "numeral b", where ?'a = rat] by simp
lemma ceiling_rat_one_divide_numeral: "\<lceil>1 / numeral b :: rat\<rceil> = - (- 1 div numeral b)"
  using ceiling_divide_eq_div[of 1 "numeral b", where ?'a = rat] by simp

lemmas len_eval = bitlen_0 bitlen_1 bitlen_numeral declen_0 declen_1 declen_numeral
  floor_rat_divide_numeral floor_rat_one_divide_numeral ceiling_rat_divide_numeral
  ceiling_rat_one_divide_numeral


lemma shortest_search_numeral:
  "shortest_search (numeral k) n y =
    (case shortest_try n y of Some d \<Rightarrow> d | None \<Rightarrow> shortest_search (pred_numeral k) (Suc n) y)"
proof -
  have h: "numeral k = Suc (pred_numeral k)" by (rule numeral_eq_Suc)
  show ?thesis by (simp only: h shortest_search.simps)
qed

lemmas regex_eval =
  FindStringSubmatch_def iso_regex_def seconds_regex_def group_text_def is_digit_def byte_def
  DecodeRune_def

lemmas float_eval =
  float_round_def floor_log2_def floor_log10_def len_eval pow2_def pow10_def
  round_half_even_def round32_def round64_def mul64_def add64_def div64_def to_float32_def

lemmas ParseFloat32_eval =
  ParseFloat32_def is_digit_def byte_def digits_val_def digit_val_def float_eval

lemmas FormatFloat32_eval =
  FormatFloat32_def shortest32_def shortest_search_numeral shortest_try_def shortest_pick_def nearer_def dec_value_def
  fmt_decimal_def strip_zeros_def digits_of.simps digit_char_def char_of_nat_bits float_eval

lemmas ParseDuration_eval =
  ParseDuration_def ParseDuration_loop.simps parse_segment_def starts_number_def unitMap_def
  is_digit_def byte_def digit_val_def float_eval





subsection \<open>Particular durations\<close>

lemma ParseISODuration_P1Y1M1DT1H:
  "ParseISODuration ''P1Y1M1DT1H'' = Returns 90000000000000"
proof -
  have m: "FindStringSubmatch ''P1Y1M1DT1H'' = Some [''P1Y1M1DT1H'', ''1'', ''1'', ''1'', ''1'', [], []]"
    by (simp add: regex_eval)
  have p3: "ParseFloat32 ''1'' = Inr 1"
    by (simp add: ParseFloat32_eval)
  have c3: "component [''P1Y1M1DT1H'', ''1'', ''1'', ''1'', ''1'', [], []] 3 [24, 60, 60] 0 = Returns 86400"
    by (simp add: component_def index_def bind_def p3 float_eval)
  have p4: "ParseFloat32 ''1'' = Inr 1"
    by (simp add: ParseFloat32_eval)
  have c4: "component [''P1Y1M1DT1H'', ''1'', ''1'', ''1'', ''1'', [], []] 4 [60, 60] 86400 = Returns 90000"
    by (simp add: component_def index_def bind_def p4 float_eval)
  have c5: "component [''P1Y1M1DT1H'', ''1'', ''1'', ''1'', ''1'', [], []] 5 [60] 90000 = Returns 90000"
    by (simp add: component_def index_def bind_def)
  have c6: "component [''P1Y1M1DT1H'', ''1'', ''1'', ''1'', ''1'', [], []] 6 [] 90000 = Returns 90000"
    by (simp add: component_def index_def bind_def)
  have f: "FormatFloat32 90000 = ''90000''"
    by (simp add: FormatFloat32_eval)
  have d: "ParseDuration ''90000s'' = Inr 90000000000000"
    by (simp add: ParseDuration_eval)
  show ?thesis
    by (simp add: ParseISODuration_def m c3 c4 c5 c6 bind_def f d)
qed

lemma ParseISODuration_P1DT1H:
  "ParseISODuration ''P1DT1H'' = Returns 90000000000000"
proof -
  have m: "FindStringSubmatch ''P1DT1H'' = Some [''P1DT1H'', [], [], ''1'', ''1'', [], []]"
    by (simp add: regex_eval)
  have p3: "ParseFloat32 ''1'' = Inr 1"
    by (simp add: ParseFloat32_eval)
  have c3: "component [''P1DT1H'', [], [], ''1'', ''1'', [], []] 3 [24, 60, 60] 0 = Returns 86400"
    by (simp add: component_def index_def bind_def p3 float_eval)
  have p4: "ParseFloat32 ''1'' = Inr 1"
    by (simp add: ParseFloat32_eval)
  have c4: "component [''P1DT1H'', [], [], ''1'', ''1'', [], []] 4 [60, 60] 86400 = Returns 90000"
    by (simp add: component_def index_def bind_def p4 float_eval)
  have c5: "component [''P1DT1H'', [], [], ''1'', ''1'', [], []] 5 [60] 90000 = Returns 90000"
    by (simp add: component_def index_def bind_def)
  have c6: "component [''P1DT1H'', [], [], ''1'', ''1'', [], []] 6 [] 90000 = Returns 90000"
    by (simp add: component_def index_def bind_def)
  have f: "FormatFloat32 90000 = ''90000''"
    by (simp add: FormatFloat32_eval)
  have d: "ParseDuration ''90000s'' = Inr 90000000000000"
    by (simp add: ParseDuration_eval)
  show ?thesis
    by (simp add: ParseISODuration_def m c3 c4 c5 c6 bind_def f d)
qed

lemma ParseISODuration_P7Y3M1DT1H:
  "ParseISODuration ''P7Y3M1DT1H'' = Returns 90000000000000"
proof -
  have m: "FindStringSubmatch ''P7Y3M1DT1H'' = Some [''P7Y3M1DT1H'', ''7'', ''3'', ''1'', ''1'', [], []]"
    by (simp add: regex_eval)
  have p3: "ParseFloat32 ''1'' = Inr 1"
    by (simp add: ParseFloat32_eval)
  have c3: "component [''P7Y3M1DT1H'', ''7'', ''3'', ''1'', ''1'', [], []] 3 [24, 60, 60] 0 = Returns 86400"
    by (simp add: component_def index_def bind_def p3 float_eval)
  have p4: "ParseFloat32 ''1'' = Inr 1"
    by (simp add: ParseFloat32_eval)
  have c4: "component [''P7Y3M1DT1H'', ''7'', ''3'', ''1'', ''1'', [], []] 4 [60, 60] 86400 = Returns 90000"
    by (simp add: component_def index_def bind_def p4 float_eval)
  have c5: "component [''P7Y3M1DT1H'', ''7'', ''3'', ''1'', ''1'', [], []] 5 [60] 90000 = Returns 90000"
    by (simp add: component_def index_def bind_def)
  have c6: "component [''P7Y3M1DT1H'', ''7'', ''3'', ''1'', ''1'', [], []] 6 [] 90000 = Returns 90000"
    by (simp add: component_def index_def bind_def)
  have f: "FormatFloat32 90000 = ''90000''"
    by (simp add: FormatFloat32_eval)
  have d: "ParseDuration ''90000s'' = Inr 90000000000000"
    by (simp add: ParseDuration_eval)
  show ?thesis
    by (simp add: ParseISODuration_def m c3 c4 c5 c6 bind_def f d)
qed

lemma ParseISODuration_P1Y1MT1H:
  "ParseISODuration ''P1Y1MT1H'' = Returns 3600000000000"
proof -
  have m: "FindStringSubmatch ''P1Y1MT1H'' = Some [''P1Y1MT1H'', ''1'', ''1'', [], ''1'', [], []]"
    by (simp add: regex_eval)
  have c3: "component [''P1Y1MT1H'', ''1'', ''1'', [], ''1'', [], []] 3 [24, 60, 60] 0 = Returns 0"
    by (simp add: component_def index_def bind_def)
  have p4: "ParseFloat32 ''1'' = Inr 1"
    by (simp add: ParseFloat32_eval)
  have c4: "component [''P1Y1MT1H'', ''1'', ''1'', [], ''1'', [], []] 4 [60, 60] 0 = Returns 3600"
    by (simp add: component_def index_def bind_def p4 float_eval)
  have c5: "component [''P1Y1MT1H'', ''1'', ''1'', [], ''1'', [], []] 5 [60] 3600 = Returns 3600"
    by (simp add: component_def index_def bind_def)
  have c6: "component [''P1Y1MT1H'', ''1'', ''1'', [], ''1'', [], []] 6 [] 3600 = Returns 3600"
    by (simp add: component_def index_def bind_def)
  have f: "FormatFloat32 3600 = ''3600''"
    by (simp add: FormatFloat32_eval)
  have d: "ParseDuration ''3600s'' = Inr 3600000000000"
    by (simp add: ParseDuration_eval)
  show ?thesis
    by (simp add: ParseISODuration_def m c3 c4 c5 c6 bind_def f d)
qed

lemma ParseISODuration_PT1H:
  "ParseISODuration ''PT1H'' = Returns 3600000000000"
proof -
  have m: "FindStringSubmatch ''PT1H'' = Some [''PT1H'', [], [], [], ''1'', [], []]"
    by (simp add: regex_eval)
  have c3: "component [''PT1H'', [], [], [], ''1'', [], []] 3 [24, 60, 60] 0 = Returns 0"
    by (simp add: component_def index_def bind_def)
  have p4: "ParseFloat32 ''1'' = Inr 1"
    by (simp add: ParseFloat32_eval)
  have c4: "component [''PT1H'', [], [], [], ''1'', [], []] 4 [60, 60] 0 = Returns 3600"
    by (simp add: component_def index_def bind_def p4 float_eval)
  have c5: "component [''PT1H'', [], [], [], ''1'', [], []] 5 [60] 3600 = Returns 3600"
    by (simp add: component_def index_def bind_def)
  have c6: "component [''PT1H'', [], [], [], ''1'', [], []] 6 [] 3600 = Returns 3600"
    by (simp add: component_def index_def bind_def)
  have f: "FormatFloat32 3600 = ''3600''"
    by (simp add: FormatFloat32_eval)
  have d: "ParseDuration ''3600s'' = Inr 3600000000000"
    by (simp add: ParseDuration_eval)
  show ?thesis
    by (simp add: ParseISODuration_def m c3 c4 c5 c6 bind_def f d)
qed

lemma ParseISODuration_PT0S:
  "ParseISODuration ''PT0S'' = Returns 0"
proof -
  have m: "FindStringSubmatch ''PT0S'' = Some [''PT0S'', [], [], [], [], [], ''0'']"
    by (simp add: regex_eval)
  have c3: "component [''PT0S'', [], [], [], [], [], ''0''] 3 [24, 60, 60] 0 = Returns 0"
    by (simp add: component_def index_def bind_def)
  have c4: "component [''PT0S'', [], [], [], [], [], ''0''] 4 [60, 60] 0 = Returns 0"
    by (simp add: component_def index_def bind_def)
  have c5: "component [''PT0S'', [], [], [], [], [], ''0''] 5 [60] 0 = Returns 0"
    by (simp add: component_def index_def bind_def)
  have p6: "ParseFloat32 ''0'' = Inr 0"
    by (simp add: ParseFloat32_eval)
  have c6: "component [''PT0S'', [], [], [], [], [], ''0''] 6 [] 0 = Returns 0"
    by (simp add: component_def index_def bind_def p6 float_eval)
  have f: "FormatFloat32 0 = ''0''"
    by (simp add: FormatFloat32_eval)
  have d: "ParseDuration ''0s'' = Inr 0"
    by (simp add: ParseDuration_eval)
  show ?thesis
    by (simp add: ParseISODuration_def m c3 c4 c5 c6 bind_def f d)
qed

lemma ParseISODuration_P1DT:
  "ParseISODuration ''P1DT'' = Returns 86400000000000"
proof -
  have m: "FindStringSubmatch ''P1DT'' = Some [''P1DT'', [], [], ''1'', [], [], []]"
    by (simp add: regex_eval)
  have p3: "ParseFloat32 ''1'' = Inr 1"
    by (simp add: ParseFloat32_eval)
  have c3: "component [''P1DT'', [], [], ''1'', [], [], []] 3 [24, 60, 60] 0 = Returns 86400"
    by (simp add: component_def index_def bind_def p3 float_eval)
  have c4: "component [''P1DT'', [], [], ''1'', [], [], []] 4 [60, 60] 86400 = Returns 86400"
    by (simp add: component_def index_def bind_def)
  have c5: "component [''P1DT'', [], [], ''1'', [], [], []] 5 [60] 86400 = Returns 86400"
    by (simp add: component_def index_def bind_def)
  have c6: "component [''P1DT'', [], [], ''1'', [], [], []] 6 [] 86400 = Returns 86400"
    by (simp add: component_def index_def bind_def)
  have f: "FormatFloat32 86400 = ''86400''"
    by (simp add: FormatFloat32_eval)
  have d: "ParseDuration ''86400s'' = Inr 86400000000000"
    by (simp add: ParseDuration_eval)
  show ?thesis
    by (simp add: ParseISODuration_def m c3 c4 c5 c6 bind_def f d)
qed

lemma ParseISODuration_PT1H30M:
  "ParseISODuration ''PT1H30M'' = Returns 5400000000000"
proof -
  have m: "FindStringSubmatch ''PT1H30M'' = Some [''PT1H30M'', [], [], [], ''1'', ''30'', []]"
    by (simp add: regex_eval)
  have c3: "component [''PT1H30M'', [], [], [], ''1'', ''30'', []] 3 [24, 60, 60] 0 = Returns 0"
    by (simp add: component_def index_def bind_def)
  have p4: "ParseFloat32 ''1'' = Inr 1"
    by (simp add: ParseFloat32_eval)
  have c4: "component [''PT1H30M'', [], [], [], ''1'', ''30'', []] 4 [60, 60] 0 = Returns 3600"
    by (simp add: component_def index_def bind_def p4 float_eval)
  have p5: "ParseFloat32 ''30'' = Inr 30"
    by (simp add: ParseFloat32_eval)
  have c5: "component [''PT1H30M'', [], [], [], ''1'', ''30'', []] 5 [60] 3600 = Returns 5400"
    by (simp add: component_def index_def bind_def p5 float_eval)
  have c6: "component [''PT1H30M'', [], [], [], ''1'', ''30'', []] 6 [] 5400 = Returns 5400"
    by (simp add: component_def index_def bind_def)
  have f: "FormatFloat32 5400 = ''5400''"
    by (simp add: FormatFloat32_eval)
  have d: "ParseDuration ''5400s'' = Inr 5400000000000"
    by (simp add: ParseDuration_eval)
  show ?thesis
    by (simp add: ParseISODuration_def m c3 c4 c5 c6 bind_def f d)
qed

lemma ParseISODuration_PT1_5S:
  "ParseISODuration ''PT1.5S'' = Returns 1500000000"
proof -
  have m: "FindStringSubmatch ''PT1.5S'' = Some [''PT1.5S'', [], [], [], [], [], ''1.5'']"
    by (simp add: regex_eval)
  have c3: "component [''PT1.5S'', [], [], [], [], [], ''1.5''] 3 [24, 60, 60] 0 = Returns 0"
    by (simp add: component_def index_def bind_def)
  have c4: "component [''PT1.5S'', [], [], [], [], [], ''1.5''] 4 [60, 60] 0 = Returns 0"
    by (simp add: component_def index_def bind_def)
  have c5: "component [''PT1.5S'', [], [], [], [], [], ''1.5''] 5 [60] 0 = Returns 0"
    by (simp add: component_def index_def bind_def)
  have p6: "ParseFloat32 ''1.5'' = Inr (3 / 2)"
    by (simp add: ParseFloat32_eval)
  have c6: "component [''PT1.5S'', [], [], [], [], [], ''1.5''] 6 [] 0 = Returns (3 / 2)"
    by (simp add: component_def index_def bind_def p6 float_eval)
  have f: "FormatFloat32 (3 / 2) = ''1.5''"
    by (simp add: FormatFloat32_eval)
  have d: "ParseDuration ''1.5s'' = Inr 1500000000"
    by (simp add: ParseDuration_eval)
  show ?thesis
    by (simp add: ParseISODuration_def m c3 c4 c5 c6 bind_def f d)
qed

lemma ParseISODuration_PT50S:
  "ParseISODuration ''PT50S'' = Returns 50000000000"
proof -
  have m: "FindStringSubmatch ''PT50S'' = Some [''PT50S'', [], [], [], [], [], ''50'']"
    by (simp add: regex_eval)
  have c3: "component [''PT50S'', [], [], [], [], [], ''50''] 3 [24, 60, 60] 0 = Returns 0"
    by (simp add: component_def index_def bind_def)
  have c4: "component [''PT50S'', [], [], [], [], [], ''50''] 4 [60, 60] 0 = Returns 0"
    by (simp add: component_def index_def bind_def)
  have c5: "component [''PT50S'', [], [], [], [], [], ''50''] 5 [60] 0 = Returns 0"
    by (simp add: component_def index_def bind_def)
  have p6: "ParseFloat32 ''50'' = Inr 50"
    by (simp add: ParseFloat32_eval)
  have c6: "component [''PT50S'', [], [], [], [], [], ''50''] 6 [] 0 = Returns 50"
    by (simp add: component_def index_def bind_def p6 float_eval)
  have f: "FormatFloat32 50 = ''50''"
    by (simp add: FormatFloat32_eval)
  have d: "ParseDuration ''50s'' = Inr 50000000000"
    by (simp add: ParseDuration_eval)
  show ?thesis
    by (simp add: ParseISODuration_def m c3 c4 c5 c6 bind_def f d)
qed

lemma ParseISODuration_PT:
  "ParseISODuration ''PT'' = Returns 0"
proof -
  have m: "FindStringSubmatch ''PT'' = Some [''PT'', [], [], [], [], [], []]"
    by (simp add: regex_eval)
  have c3: "component [''PT'', [], [], [], [], [], []] 3 [24, 60, 60] 0 = Returns 0"
    by (simp add: component_def index_def bind_def)
  have c4: "component [''PT'', [], [], [], [], [], []] 4 [60, 60] 0 = Returns 0"
    by (simp add: component_def index_def bind_def)
  have c5: "component [''PT'', [], [], [], [], [], []] 5 [60] 0 = Returns 0"
    by (simp add: component_def index_def bind_def)
  have c6: "component [''PT'', [], [], [], [], [], []] 6 [] 0 = Returns 0"
    by (simp add: component_def index_def bind_def)
  have f: "FormatFloat32 0 = ''0''"
    by (simp add: FormatFloat32_eval)
  have d: "ParseDuration ''0s'' = Inr 0"
    by (simp add: ParseDuration_eval)
  show ?thesis
    by (simp add: ParseISODuration_def m c3 c4 c5 c6 bind_def f d)
qed

lemma ParseISODuration_1DT0S: "ParseISODuration ''1DT0S'' = Fails ErrIncorrectFormat"
proof -
  have m: "FindStringSubmatch ''1DT0S'' = None"
    by (simp add: regex_eval)
  show ?thesis by (simp add: ParseISODuration_def m)
qed

text \<open>
  Claim C4.  \<^verbatim>\<open>ParseISODuration\<close> returns 0 seconds for "PT0S", 86400 seconds for "P1DT"
  (nothing need follow the \<^verbatim>\<open>T\<close>), 5400 seconds for "PT1H30M" and 1.5 seconds for "PT1.5S",
  and it fails for "1DT0S", which lacks the leading \<^verbatim>\<open>P\<close>.  Durations are counted in
  nanoseconds.
\<close>

theorem ParseISODuration_examples:
  "ParseISODuration ''PT0S'' = Returns 0
   \<and> ParseISODuration ''P1DT'' = Returns 86400000000000
   \<and> ParseISODuration ''PT1H30M'' = Returns 5400000000000
   \<and> ParseISODuration ''PT1.5S'' = Returns 1500000000
   \<and> ParseISODuration ''1DT0S'' = Fails ErrIncorrectFormat"
  by (simp add: ParseISODuration_PT0S ParseISODuration_P1DT ParseISODuration_PT1H30M
      ParseISODuration_PT1_5S ParseISODuration_1DT0S)

text \<open>
  Claim C1, as amended.  \<^verbatim>\<open>ParseISODuration\<close> applied to "P1Y1M1DT1H" succeeds and returns
  exactly 90000 seconds, one day and one hour: the year and the month are not added to
  the result, the day is.  The same input without year and month, or with other values
  for them, gives the same 90000 seconds, and without the day it gives the 3600 seconds
  of "PT1H".
\<close>

theorem ParseISODuration_year_month_ignored:
  "ParseISODuration ''P1Y1M1DT1H'' = Returns 90000000000000
   \<and> ParseISODuration ''P1DT1H'' = Returns 90000000000000
   \<and> ParseISODuration ''P7Y3M1DT1H'' = Returns 90000000000000
   \<and> ParseISODuration ''P1Y1MT1H'' = Returns 3600000000000
   \<and> ParseISODuration ''PT1H'' = Returns 3600000000000"
  by (simp add: ParseISODuration_P1Y1M1DT1H ParseISODuration_P1DT1H ParseISODuration_P7Y3M1DT1H
      ParseISODuration_P1Y1MT1H ParseISODuration_PT1H)

text \<open>
  Claim C1 as stated fails: the result for "P1Y1M1DT1H" is not 3600 seconds.
\<close>

theorem ParseISODuration_P1Y1M1DT1H_not_3600:
  "ParseISODuration ''P1Y1M1DT1H'' \<noteq> Returns 3600000000000"
  by (simp add: ParseISODuration_P1Y1M1DT1H)


subsection \<open>Failure instead of a crash\<close>

lemma rmatch_iso_regex_hd:
  "rmatch iso_regex s caps \<noteq> [] \<Longrightarrow> \<exists>t. s = CHR ''P'' # t"
  by (cases s) (auto simp: iso_regex_def split: if_splits)

lemma FindStringSubmatch_no_P:
  assumes "s = [] \<or> hd s \<noteq> CHR ''P''"
  shows "FindStringSubmatch s = None"
proof -
  have "rmatch iso_regex s [] = []"
  proof (rule ccontr)
    assume "rmatch iso_regex s [] \<noteq> []"
    then obtain t where "s = CHR ''P'' # t" using rmatch_iso_regex_hd by blast
    with assms show False by simp
  qed
  then show ?thesis by (simp add: FindStringSubmatch_def)
qed

lemma component_result:
  assumes "i < length ms"
  shows "(ms ! i \<noteq> [] \<and> (\<exists>err. ParseFloat32 (ms ! i) = Inl err \<and> component ms i fs sec = Fails err))
       \<or> (\<exists>v. component ms i fs sec = Returns v)"
  using assms by (cases "ParseFloat32 (ms ! i)") (auto simp: component_cases)

lemma component_fails:
  assumes "i < length ms" "ms ! i \<noteq> []" "ParseFloat32 (ms ! i) = Inl err"
  shows "component ms i fs sec = Fails err"
  using assms by (simp add: component_cases)

lemma ParseISODuration_group_error:
  assumes m: "FindStringSubmatch s = Some ms"
    and i: "i \<in> {3, 4, 5, 6}"
    and ne: "ms ! i \<noteq> []"
    and pf: "ParseFloat32 (ms ! i) = Inl err"
  shows "\<exists>e. ParseISODuration s = Fails e"
proof -
  have len: "length ms = 7" using m by (rule FindStringSubmatch_length)
  have r3: "\<And>sec. (\<exists>e. component ms 3 [24, 60, 60] sec = Fails e) \<or> (\<exists>v. component ms 3 [24, 60, 60] sec = Returns v)"
    using component_result[of 3 ms] len by fastforce
  have r4: "\<And>sec. (\<exists>e. component ms 4 [60, 60] sec = Fails e) \<or> (\<exists>v. component ms 4 [60, 60] sec = Returns v)"
    using component_result[of 4 ms] len by fastforce
  have r5: "\<And>sec. (\<exists>e. component ms 5 [60] sec = Fails e) \<or> (\<exists>v. component ms 5 [60] sec = Returns v)"
    using component_result[of 5 ms] len by fastforce
  have f: "\<And>fs sec. component ms i fs sec = Fails err"
    using i len ne pf by (intro component_fails) auto
  show ?thesis
  proof (cases "\<exists>e. component ms 3 [24, 60, 60] 0 = Fails e")
    case True
    then show ?thesis by (auto simp: ParseISODuration_def m bind_def)
  next
    case False
    then obtain a where a: "component ms 3 [24, 60, 60] 0 = Returns a" using r3[of 0] by auto
    with f have i3: "i \<noteq> 3" by auto
    show ?thesis
    proof (cases "\<exists>e. component ms 4 [60, 60] a = Fails e")
      case True
      then show ?thesis by (auto simp: ParseISODuration_def m bind_def a)
    next
      case False
      then obtain b where b: "component ms 4 [60, 60] a = Returns b" using r4[of a] by auto
      with f have i4: "i \<noteq> 4" by auto
      show ?thesis
      proof (cases "\<exists>e. component ms 5 [60] b = Fails e")
        case True
        then show ?thesis by (auto simp: ParseISODuration_def m bind_def a b)
      next
        case False
        then obtain c where c: "component ms 5 [60] b = Returns c" using r5[of b] by auto
        with f have i5: "i \<noteq> 5" by auto
        from i i3 i4 i5 have "i = 6" by auto
        with f have "component ms 6 [] c = Fails err" by simp
        then show ?thesis by (simp add: ParseISODuration_def m bind_def a b c)
      qed
    qed
  qed
qed

lemma ParseISODuration_cases:
  "(\<exists>d. ParseISODuration s = Returns d) \<or> (\<exists>e. ParseISODuration s = Fails e)"
  using ParseISODuration_no_panic[of s] by (cases "ParseISODuration s") auto


lemma ParseISODuration_PT1M2H3S: "ParseISODuration ''PT1M2H3S'' = Fails ErrSyntax"
proof -
  have m: "FindStringSubmatch ''PT1M2H3S'' = Some [''PT1M2H3S'', [], [], [], [], ''1'', ''2H3'']"
    by (simp add: regex_eval)
  have p5: "ParseFloat32 ''1'' = Inr 1"
    by (simp add: ParseFloat32_eval)
  have p6: "ParseFloat32 ''2H3'' = Inl ErrSyntax"
    by (simp add: ParseFloat32_eval)
  have c3: "component [''PT1M2H3S'', [], [], [], [], ''1'', ''2H3''] 3 [24, 60, 60] 0 = Returns 0"
    by (simp add: component_def index_def bind_def)
  have c4: "component [''PT1M2H3S'', [], [], [], [], ''1'', ''2H3''] 4 [60, 60] 0 = Returns 0"
    by (simp add: component_def index_def bind_def)
  have c5: "component [''PT1M2H3S'', [], [], [], [], ''1'', ''2H3''] 5 [60] 0 = Returns 60"
    by (simp add: component_def index_def bind_def p5 float_eval)
  have c6: "component [''PT1M2H3S'', [], [], [], [], ''1'', ''2H3''] 6 [] 60 = Fails ErrSyntax"
    by (simp add: component_def index_def bind_def p6)
  show ?thesis
    by (simp add: ParseISODuration_def m c3 c4 c5 c6 bind_def)
qed

lemma ParseISODuration_PT1x5S: "ParseISODuration ''PT1x5S'' = Fails ErrSyntax"
proof -
  have m: "FindStringSubmatch ''PT1x5S'' = Some [''PT1x5S'', [], [], [], [], [], ''1x5'']"
    by (simp add: regex_eval)
  have p6: "ParseFloat32 ''1x5'' = Inl ErrSyntax"
    by (simp add: ParseFloat32_eval)
  have c3: "component [''PT1x5S'', [], [], [], [], [], ''1x5''] 3 [24, 60, 60] 0 = Returns 0"
    by (simp add: component_def index_def bind_def)
  have c4: "component [''PT1x5S'', [], [], [], [], [], ''1x5''] 4 [60, 60] 0 = Returns 0"
    by (simp add: component_def index_def bind_def)
  have c5: "component [''PT1x5S'', [], [], [], [], [], ''1x5''] 5 [60] 0 = Returns 0"
    by (simp add: component_def index_def bind_def)
  have c6: "component [''PT1x5S'', [], [], [], [], [], ''1x5''] 6 [] 0 = Fails ErrSyntax"
    by (simp add: component_def index_def bind_def p6)
  show ?thesis
    by (simp add: ParseISODuration_def m c3 c4 c5 c6 bind_def)
qed

lemma ParseISODuration_huge_days:
  "ParseISODuration ''P99999999999999999999999999999999999999999999DT'' = Fails ErrRange"
proof -
  have m: "FindStringSubmatch ''P99999999999999999999999999999999999999999999DT''
      = Some [''P99999999999999999999999999999999999999999999DT'', [], [],
              ''99999999999999999999999999999999999999999999'', [], [], []]"
    by (simp add: regex_eval)
  have p3: "ParseFloat32 ''99999999999999999999999999999999999999999999'' = Inl ErrRange"
    by (simp add: ParseFloat32_eval)
  have c3: "component [''P99999999999999999999999999999999999999999999DT'', [], [],
              ''99999999999999999999999999999999999999999999'', [], [], []] 3 [24, 60, 60] 0
        = Fails ErrRange"
    by (simp add: component_def index_def bind_def p3)
  show ?thesis
    by (simp add: ParseISODuration_def m c3 bind_def)
qed

lemma ParseISODuration_P106752DT: "ParseISODuration ''P106752DT'' = Fails ErrInvalidDuration"
proof -
  have m: "FindStringSubmatch ''P106752DT'' = Some [''P106752DT'', [], [], ''106752'', [], [], []]"
    by (simp add: regex_eval)
  have p3: "ParseFloat32 ''106752'' = Inr 106752"
    by (simp add: ParseFloat32_eval)
  have c3: "component [''P106752DT'', [], [], ''106752'', [], [], []] 3 [24, 60, 60] 0 = Returns 9223372800"
    by (simp add: component_def index_def bind_def p3 float_eval)
  have c4: "component [''P106752DT'', [], [], ''106752'', [], [], []] 4 [60, 60] 9223372800 = Returns 9223372800"
    by (simp add: component_def index_def bind_def)
  have c5: "component [''P106752DT'', [], [], ''106752'', [], [], []] 5 [60] 9223372800 = Returns 9223372800"
    by (simp add: component_def index_def bind_def)
  have c6: "component [''P106752DT'', [], [], ''106752'', [], [], []] 6 [] 9223372800 = Returns 9223372800"
    by (simp add: component_def index_def bind_def)
  have f: "FormatFloat32 9223372800 = ''9223373000''"
    by (simp add: FormatFloat32_eval)
  have d: "ParseDuration ''9223373000s'' = Inl ErrInvalidDuration"
    by (simp add: ParseDuration_eval)
  show ?thesis
    by (simp add: ParseISODuration_def m c3 c4 c5 c6 bind_def f d)
qed

text \<open>
  Claim C8.  For every input \<^verbatim>\<open>ParseISODuration\<close> either returns a duration or returns an
  error; it never panics.  When the regular expression does not match (for one, when the
  input does not start with \<^verbatim>\<open>P\<close>) the error is that of the incorrect format, and when a
  matched group that is not empty fails to parse as a number the function returns an
  error as well.  Examples of each kind of failure: no match, a seconds group that is no
  number, a day count beyond the range of \<^verbatim>\<open>float32\<close>, and a total beyond the range of a
  duration.
\<close>

theorem ParseISODuration_returns_or_fails:
  "((\<exists>d. ParseISODuration s = Returns d) \<or> (\<exists>e. ParseISODuration s = Fails e))
   \<and> ParseISODuration s \<noteq> Panics
   \<and> (FindStringSubmatch s = None \<longrightarrow> ParseISODuration s = Fails ErrIncorrectFormat)
   \<and> (s = [] \<or> hd s \<noteq> CHR ''P'' \<longrightarrow> ParseISODuration s = Fails ErrIncorrectFormat)
   \<and> (\<forall>ms i err. FindStringSubmatch s = Some ms \<and> i \<in> {3, 4, 5, 6} \<and> ms ! i \<noteq> []
          \<and> ParseFloat32 (ms ! i) = Inl err \<longrightarrow> (\<exists>e. ParseISODuration s = Fails e))
   \<and> ParseISODuration ''1DT0S'' = Fails ErrIncorrectFormat
   \<and> ParseISODuration [] = Fails ErrIncorrectFormat
   \<and> ParseISODuration ''PT1M2H3S'' = Fails ErrSyntax
   \<and> ParseISODuration ''PT1x5S'' = Fails ErrSyntax
   \<and> ParseISODuration ''P99999999999999999999999999999999999999999999DT'' = Fails ErrRange
   \<and> ParseISODuration ''P106752DT'' = Fails ErrInvalidDuration
   \<and> ParseISODuration ''PT1H'' = Returns 3600000000000"
proof (intro conjI allI impI)
  show "(\<exists>d. ParseISODuration s = Returns d) \<or> (\<exists>e. ParseISODuration s = Fails e)"
    by (rule ParseISODuration_cases)
  show "ParseISODuration s \<noteq> Panics"
    by (rule ParseISODuration_no_panic)
  show "ParseISODuration s = Fails ErrIncorrectFormat" if "FindStringSubmatch s = None"
    using that by (simp add: ParseISODuration_def)
  show "ParseISODuration s = Fails ErrIncorrectFormat" if "s = [] \<or> hd s \<noteq> CHR ''P''"
    using FindStringSubmatch_no_P[OF that] by (simp add: ParseISODuration_def)
  show "\<exists>e. ParseISODuration s = Fails e"
    if "FindStringSubmatch s = Some ms \<and> i \<in> {3, 4, 5, 6} \<and> ms ! i \<noteq> []
          \<and> ParseFloat32 (ms ! i) = Inl err" for ms i err
    using that ParseISODuration_group_error[of s ms i err] by blast
  show "ParseISODuration ''1DT0S'' = Fails ErrIncorrectFormat"
    by (rule ParseISODuration_1DT0S)
  show "ParseISODuration [] = Fails ErrIncorrectFormat"
    using FindStringSubmatch_no_P[of "[]"] by (simp add: ParseISODuration_def)
  show "ParseISODuration ''PT1M2H3S'' = Fails ErrSyntax"
    by (rule ParseISODuration_PT1M2H3S)
  show "ParseISODuration ''PT1x5S'' = Fails ErrSyntax"
    by (rule ParseISODuration_PT1x5S)
  show "ParseISODuration ''P99999999999999999999999999999999999999999999DT'' = Fails ErrRange"
    by (rule ParseISODuration_huge_days)
  show "ParseISODuration ''P106752DT'' = Fails ErrInvalidDuration"
    by (rule ParseISODuration_P106752DT)
  show "ParseISODuration ''PT1H'' = Returns 3600000000000"
    by (rule ParseISODuration_PT1H)
qed

text \<open>An input in lower case and one without the \<^verbatim>\<open>P\<close> do not match; in "PT2:5S" the
  sixth group is "2:5", which is no number.\<close>

theorem ParseISODuration_returns_or_fails_witness:
  "FindStringSubmatch ''pt1s'' = None
   \<and> ParseISODuration ''pt1s'' = Fails ErrIncorrectFormat
   \<and> hd ''T1S'' \<noteq> CHR ''P''
   \<and> ParseISODuration ''T1S'' = Fails ErrIncorrectFormat
   \<and> FindStringSubmatch ''PT2:5S'' = Some [''PT2:5S'', [], [], [], [], [], ''2:5'']
   \<and> (6::nat) \<in> {3, 4, 5, 6}
   \<and> [''PT2:5S'', [], [], [], [], [], ''2:5''] ! 6 \<noteq> []
   \<and> ParseFloat32 ([''PT2:5S'', [], [], [], [], [], ''2:5''] ! 6) = Inl ErrSyntax
   \<and> (\<exists>e. ParseISODuration ''PT2:5S'' = Fails e)"
proof -
  have n: "FindStringSubmatch ''pt1s'' = None"
    by (simp add: regex_eval)
  have m: "FindStringSubmatch ''PT2:5S'' = Some [''PT2:5S'', [], [], [], [], [], ''2:5'']"
    by (simp add: regex_eval)
  have p: "ParseFloat32 ''2:5'' = Inl ErrSyntax"
    by (simp add: ParseFloat32_eval)
  have a: "ParseISODuration ''pt1s'' = Fails ErrIncorrectFormat"
    using ParseISODuration_returns_or_fails[of "''pt1s''"] n by blast
  have b: "ParseISODuration ''T1S'' = Fails ErrIncorrectFormat"
    using ParseISODuration_returns_or_fails[of "''T1S''"] by simp
  have "\<forall>ms i err. FindStringSubmatch ''PT2:5S'' = Some ms \<and> i \<in> {3, 4, 5, 6} \<and> ms ! i \<noteq> []
          \<and> ParseFloat32 (ms ! i) = Inl err \<longrightarrow> (\<exists>e. ParseISODuration ''PT2:5S'' = Fails e)"
    using ParseISODuration_returns_or_fails[of "''PT2:5S''"] by blast
  then have "FindStringSubmatch ''PT2:5S'' = Some [''PT2:5S'', [], [], [], [], [], ''2:5'']
        \<and> (6::nat) \<in> {3, 4, 5, 6} \<and> [''PT2:5S'', [], [], [], [], [], ''2:5''] ! 6 \<noteq> []
        \<and> ParseFloat32 ([''PT2:5S'', [], [], [], [], [], ''2:5''] ! 6) = Inl ErrSyntax
      \<longrightarrow> (\<exists>e. ParseISODuration ''PT2:5S'' = Fails e)"
    by blast
  then have c: "\<exists>e. ParseISODuration ''PT2:5S'' = Fails e"
    by (simp add: m p)
  show ?thesis
    using a b c by (simp add: n m p)
qed



section \<open>Trimming and the shape of a duration\<close>

lemma IsSpace_valid: "IsSpace r \<Longrightarrow> valid_rune r"
  by (auto simp: IsSpace_def valid_rune_def split: if_splits)

lemma IsSpace_small: "IsSpace r \<Longrightarrow> r < 0x10000"
  by (auto simp: IsSpace_def split: if_splits)

lemma TrimLeftSpace_stop:
  assumes "byte c < 0x80" "\<not> IsSpace (byte c)"
  shows "TrimLeftSpace (c # t) = c # t"
  using assms by (subst TrimLeftSpace.simps) (simp add: DecodeRune_def)

lemma TrimLeftSpace_space_rune:
  assumes "IsSpace r"
  shows "TrimLeftSpace (EncodeRune r @ s) = TrimLeftSpace s"
proof -
  have d: "DecodeRune (EncodeRune r @ s) = (r, length (EncodeRune r))"
    using IsSpace_valid[OF assms] by (rule DecodeRune_EncodeRune)
  show ?thesis
    by (subst TrimLeftSpace.simps) (simp add: d EncodeRune_nonempty assms)
qed

lemma TrimLeftSpace_spaces:
  assumes "\<forall>r \<in> set rs. IsSpace r"
  shows "TrimLeftSpace (concat (map EncodeRune rs) @ s) = TrimLeftSpace s"
  using assms by (induction rs) (simp_all add: TrimLeftSpace_space_rune)

lemma TrimRightSpace_stop:
  assumes "s \<noteq> []" "byte (last s) < 0x80" "\<not> IsSpace (byte (last s))"
  shows "TrimRightSpace s = s"
  using assms by (subst TrimRightSpace.simps) (simp add: DecodeLastRune_def)

lemma RuneStart_lead: "0xC0 \<le> n \<Longrightarrow> n < 256 \<Longrightarrow> RuneStart (char_of (n::nat))"
  by (simp add: RuneStart_def byte_char_of)

lemma not_RuneStart_cont: "m < 64 \<Longrightarrow> \<not> RuneStart (char_of (0x80 + m :: nat))"
  by (simp add: RuneStart_def cont_byte)

lemma DecodeLastRune_EncodeRune:
  assumes v: "valid_rune r"
  shows "DecodeLastRune (s @ EncodeRune r) = (r, length (EncodeRune r))"
proof -
  have dec: "DecodeRune (EncodeRune r) = (r, length (EncodeRune r))"
    using DecodeRune_EncodeRune[OF v, of "[]"] by simp
  consider "r < 0x80" | "0x80 \<le> r" "r < 0x800" | "0x800 \<le> r" "r < 0x10000" | "0x10000 \<le> r"
    by linarith
  then show ?thesis
  proof cases
    case 1
    then show ?thesis using v
      by (simp add: EncodeRune_def DecodeLastRune_def byte_char_of)
  next
    case 2
    have e: "EncodeRune r = [char_of (0xC0 + r div 64), char_of (0x80 + r mod 64)]"
      using v 2 by (simp add: EncodeRune_def)
    have l: "\<not> byte (char_of (0x80 + r mod 64)) < 0x80" by (simp add: cont_byte)
    have s0: "RuneStart (char_of (0xC0 + r div 64))" using 2 by (intro RuneStart_lead) simp_all
    show ?thesis
      using dec by (simp add: e DecodeLastRune_def l s0)
  next
    case 3
    have e: "EncodeRune r = [char_of (0xE0 + r div 4096), char_of (0x80 + (r div 64) mod 64),
        char_of (0x80 + r mod 64)]"
      using v 3 by (simp add: EncodeRune_def)
    have l: "\<not> byte (char_of (0x80 + r mod 64)) < 0x80" by (simp add: cont_byte)
    have s1: "\<not> RuneStart (char_of (0x80 + (r div 64) mod 64))" by (intro not_RuneStart_cont) simp
    have s0: "RuneStart (char_of (0xE0 + r div 4096))" using 3 by (intro RuneStart_lead) simp_all
    show ?thesis
      using dec by (simp add: e DecodeLastRune_def l s0 s1)
  next
    case 4
    have le: "r \<le> 0x10FFFF" using v by (simp add: valid_rune_def)
    have e: "EncodeRune r = [char_of (0xF0 + r div 262144), char_of (0x80 + (r div 4096) mod 64),
        char_of (0x80 + (r div 64) mod 64), char_of (0x80 + r mod 64)]"
      using v 4 by (simp add: EncodeRune_def)
    have l: "\<not> byte (char_of (0x80 + r mod 64)) < 0x80" by (simp add: cont_byte)
    have s2: "\<not> RuneStart (char_of (0x80 + (r div 64) mod 64))" by (intro not_RuneStart_cont) simp
    have s1: "\<not> RuneStart (char_of (0x80 + (r div 4096) mod 64))" by (intro not_RuneStart_cont) simp
    have s0: "RuneStart (char_of (0xF0 + r div 262144))" using le by (intro RuneStart_lead) simp_all
    show ?thesis
      using dec by (simp add: e DecodeLastRune_def l s0 s1 s2)
  qed
qed

lemma TrimRightSpace_space_rune:
  assumes "IsSpace r"
  shows "TrimRightSpace (s @ EncodeRune r) = TrimRightSpace s"
proof -
  have d: "DecodeLastRune (s @ EncodeRune r) = (r, length (EncodeRune r))"
    using IsSpace_valid[OF assms] by (rule DecodeLastRune_EncodeRune)
  show ?thesis
    by (subst TrimRightSpace.simps) (simp add: d EncodeRune_nonempty assms)
qed

lemma TrimRightSpace_spaces:
  assumes "\<forall>r \<in> set rs. IsSpace r"
  shows "TrimRightSpace (s @ concat (map EncodeRune rs)) = TrimRightSpace s"
  using assms
proof (induction rs rule: rev_induct)
  case Nil
  show ?case by simp
next
  case (snoc r rs)
  have "TrimRightSpace (s @ concat (map EncodeRune (rs @ [r])))
      = TrimRightSpace ((s @ concat (map EncodeRune rs)) @ EncodeRune r)" by simp
  also have "\<dots> = TrimRightSpace (s @ concat (map EncodeRune rs))"
    using snoc.prems by (intro TrimRightSpace_space_rune) simp
  also have "\<dots> = TrimRightSpace s" using snoc by simp
  finally show ?case .
qed

lemma TrimSpace_padded:
  assumes d: "d = c # t" "byte c < 0x80" "\<not> IsSpace (byte c)"
    "byte (last d) < 0x80" "\<not> IsSpace (byte (last d))"
    and pre: "\<forall>r \<in> set pre. IsSpace r" and post: "\<forall>r \<in> set post. IsSpace r"
  shows "TrimSpace (concat (map EncodeRune pre) @ d @ concat (map EncodeRune post)) = d"
proof -
  have "TrimLeftSpace (concat (map EncodeRune pre) @ d @ concat (map EncodeRune post))
      = TrimLeftSpace (d @ concat (map EncodeRune post))"
    using pre by (rule TrimLeftSpace_spaces)
  also have "\<dots> = d @ concat (map EncodeRune post)"
    using d(1-3) TrimLeftSpace_stop[of c "t @ concat (map EncodeRune post)"] by simp
  finally have l: "TrimLeftSpace (concat (map EncodeRune pre) @ d @ concat (map EncodeRune post))
      = d @ concat (map EncodeRune post)" .
  have "TrimRightSpace (d @ concat (map EncodeRune post)) = TrimRightSpace d"
    using post by (rule TrimRightSpace_spaces)
  also have "\<dots> = d" using d by (intro TrimRightSpace_stop) simp_all
  finally show ?thesis by (simp add: TrimSpace_def l)
qed


lemma tailk_le2: "tailk re \<le> 2"
  by (induction re) auto

lemma rmatch_tail:
  "(rest, caps') \<in> set (rmatch re s caps) \<Longrightarrow> \<exists>u. s = u @ rest \<and> tail_ok (tailk re) u"
proof (induction re arbitrary: s caps rest caps')
  case (Lit c)
  then show ?case
    by (cases s) (auto simp: tail_ok_def split: if_splits)
next
  case Digits
  then obtain k where "rest = drop k s" by auto
  then have "s = take k s @ rest" by simp
  then show ?case by (auto simp: tail_ok_def)
next
  case AnyChar
  then have "rest = drop (snd (DecodeRune s)) s" by (auto split: if_splits)
  then have "s = take (snd (DecodeRune s)) s @ rest" by simp
  then show ?case by (auto simp: tail_ok_def)
next
  case (Seq a b)
  from Seq.prems obtain s1 c1 where a: "(s1, c1) \<in> set (rmatch a s caps)"
    and b: "(rest, caps') \<in> set (rmatch b s1 c1)" by auto
  from Seq.IH(1)[OF a] obtain u1 where u1: "s = u1 @ s1" "tail_ok (tailk a) u1" by blast
  from Seq.IH(2)[OF b] obtain u2 where u2: "s1 = u2 @ rest" "tail_ok (tailk b) u2" by blast
  have "s = (u1 @ u2) @ rest" using u1 u2 by simp
  moreover have "tail_ok (tailk (Seq a b)) (u1 @ u2)"
    using u1(2) u2(2) tailk_le2[of a] tailk_le2[of b]
    by (cases "u2 = []") (auto simp: tail_ok_def split: if_splits)
  ultimately show ?case by blast
next
  case (Opt a)
  from Opt.prems have "(rest, caps') \<in> set (rmatch a s caps) \<or> rest = s" by auto
  then show ?case
  proof
    assume "(rest, caps') \<in> set (rmatch a s caps)"
    from Opt.IH[OF this] obtain u where "s = u @ rest" "tail_ok (tailk a) u" by blast
    then show ?thesis using tailk_le2[of a]
      by (intro exI[of _ u]) (auto simp: tail_ok_def)
  next
    assume "rest = s"
    then show ?thesis by (intro exI[of _ "[]"]) (auto simp: tail_ok_def)
  qed
next
  case (Group i a)
  from Group.prems obtain c1 where "(rest, c1) \<in> set (rmatch a s caps)" by auto
  from Group.IH[OF this] show ?case by simp
qed

lemma tailk_iso_regex: "tailk iso_regex = 2"
  by (simp add: iso_regex_def seconds_regex_def)

lemma FindStringSubmatch_shape:
  assumes "FindStringSubmatch s = Some ms"
  shows "\<exists>t. s = CHR ''P'' # t" and "last s \<in> set ''YMDTHS''"
proof -
  from assms obtain x xs where
    f: "filter (\<lambda>(rest, caps). rest = []) (rmatch iso_regex s []) = x # xs"
    by (cases "filter (\<lambda>(rest, caps). rest = []) (rmatch iso_regex s [])")
       (simp_all add: FindStringSubmatch_def)
  have "x \<in> set (filter (\<lambda>(rest, caps). rest = []) (rmatch iso_regex s []))"
    unfolding f by simp
  then have "x \<in> set (rmatch iso_regex s [])" and "fst x = []"
    by (auto simp: case_prod_beta)
  then have "([], snd x) \<in> set (rmatch iso_regex s [])"
    by (metis prod.collapse)
  then obtain caps where m: "([], caps) \<in> set (rmatch iso_regex s [])"
    by blast
  then have "rmatch iso_regex s [] \<noteq> []" by auto
  then show "\<exists>t. s = CHR ''P'' # t" by (rule rmatch_iso_regex_hd)
  from rmatch_tail[OF m] show "last s \<in> set ''YMDTHS''"
    by (simp add: tailk_iso_regex tail_ok_def)
qed


end
